theory Spec2Isabelle
  imports Main "HOL-Library.Word"
begin

section \<open>Errors (errors.go)\<close>

text \<open>
  The sentinel errors of the package, each created once by \<open>errors.New\<close>. Two sentinels
  are the same error exactly when they are the same variable.
\<close>

datatype sentinel =
    ErrUnknownModel
  | ErrUnknownProvider
  | ErrNoProviders
  | ErrRateLimited
  | ErrContextCanceled
  | ErrStreamClosed
  | ErrInvalidRequest
  | ErrAuthFailed
  | ErrProviderError
  | ErrCircuitOpen
  | ErrMaxRetriesExceed

text \<open>
  A non-nil Go \<open>error\<close> value, as far as this package builds and inspects one:
  \<^item> \<open>Sentinel s\<close>: one of the package's sentinels;
  \<^item> \<open>Errorf e txt\<close>: the result of \<open>fmt.Errorf("%w: %s", e, txt)\<close> (or \<open>"%w: %v"\<close>):
    it unwraps to \<open>e\<close> and its text is the text of \<open>e\<close>, a colon and \<open>txt\<close>;
  \<^item> \<open>APIError provider status message type cause\<close>: a \<open>*APIError\<close>, whose \<open>Unwrap\<close>
    returns the \<open>Err\<close> field (possibly nil);
  \<^item> \<open>SDKError status message\<close>: a backend SDK's typed error (\<open>*anthropic.Error\<close>,
    \<open>*openai.Error\<close>) carrying an HTTP status code;
  \<^item> \<open>Foreign message cause\<close>: any other error (a context error, a network failure), with
    its text and what its \<open>Unwrap\<close> returns, if anything.
  A nil error is \<open>None\<close> of \<open>error option\<close>.
\<close>

datatype error =
    Sentinel sentinel
  | Errorf error string
  | APIError string int string string "error option"
  | SDKError int string
  | Foreign string "error option"

fun sentinel_text :: "sentinel \<Rightarrow> string" where
  "sentinel_text ErrUnknownModel = ''unknown model''"
| "sentinel_text ErrUnknownProvider = ''unknown provider''"
| "sentinel_text ErrNoProviders = ''no providers registered''"
| "sentinel_text ErrRateLimited = ''rate limited''"
| "sentinel_text ErrContextCanceled = ''context canceled''"
| "sentinel_text ErrStreamClosed = ''stream closed''"
| "sentinel_text ErrInvalidRequest = ''invalid request''"
| "sentinel_text ErrAuthFailed = ''authentication failed''"
| "sentinel_text ErrProviderError = ''provider error''"
| "sentinel_text ErrCircuitOpen = ''circuit breaker is open''"
| "sentinel_text ErrMaxRetriesExceed = ''max retries exceeded''"

text \<open>The \<open>Error()\<close> method: \<open>APIError.Error\<close> appends the cause's text when there is one.\<close>

fun Error_text :: "error \<Rightarrow> string" where
  "Error_text (Sentinel s) = sentinel_text s"
| "Error_text (Errorf e txt) = Error_text e @ '': '' @ txt"
| "Error_text (APIError p c m t cause) =
     (case cause of
        Some e \<Rightarrow> p @ '': '' @ m @ '': '' @ Error_text e
      | None \<Rightarrow> p @ '': '' @ m)"
| "Error_text (SDKError c m) = m"
| "Error_text (Foreign m cause) = m"

text \<open>How \<open>fmt\<close> prints an error under \<open>%v\<close>: a nil error prints as \<open><nil>\<close>.\<close>

definition fmt_v :: "error option \<Rightarrow> string" where
  "fmt_v e = (case e of None \<Rightarrow> ''<nil>'' | Some x \<Rightarrow> Error_text x)"

text \<open>
  \<open>errors.Is(err, target)\<close> for a sentinel target: walk the \<open>Unwrap\<close> chain and compare
  each error with the target.
\<close>

fun errors_Is :: "error \<Rightarrow> sentinel \<Rightarrow> bool" where
  "errors_Is (Sentinel s) t = (s = t)"
| "errors_Is (Errorf e txt) t = errors_Is e t"
| "errors_Is (APIError p c m ty cause) t =
     (case cause of None \<Rightarrow> False | Some e \<Rightarrow> errors_Is e t)"
| "errors_Is (SDKError c m) t = False"
| "errors_Is (Foreign m cause) t =
     (case cause of None \<Rightarrow> False | Some e \<Rightarrow> errors_Is e t)"

text \<open>
  \<open>errors.As(err, &apiErr)\<close> with \<open>apiErr\<close> of type \<open>*APIError\<close>: the first \<open>*APIError\<close>
  of the chain, if any. The result is that error's \<open>StatusCode\<close>, the only field read
  from it.
\<close>

fun errors_As_APIError :: "error \<Rightarrow> int option" where
  "errors_As_APIError (Sentinel s) = None"
| "errors_As_APIError (Errorf e txt) = errors_As_APIError e"
| "errors_As_APIError (APIError p c m ty cause) = Some c"
| "errors_As_APIError (SDKError c m) = None"
| "errors_As_APIError (Foreign m cause) =
     (case cause of None \<Rightarrow> None | Some e \<Rightarrow> errors_As_APIError e)"

text \<open>
  \<open>IsRetryable\<close>, in the order of the source: nil, the three sentinels that are never
  retried, the switch on the status code of an \<open>APIError\<close> (whose last case returns
  false for 401, 403 and 400), the rate-limit sentinel, and the default.
\<close>

definition IsRetryable :: "error option \<Rightarrow> bool" where
  "IsRetryable err =
     (case err of
        None \<Rightarrow> False
      | Some e \<Rightarrow>
          if errors_Is e ErrContextCanceled then False
          else if errors_Is e ErrAuthFailed then False
          else if errors_Is e ErrInvalidRequest then False
          else
            (let after_switch = (if errors_Is e ErrRateLimited then True else True)
             in case errors_As_APIError e of
                  Some c \<Rightarrow>
                    if c = 429 then True
                    else if c = 500 \<or> c = 502 \<or> c = 503 \<or> c = 504 then True
                    else if c = 401 \<or> c = 403 \<or> c = 400 then False
                    else after_switch
                | None \<Rightarrow> after_switch))"

text \<open>An \<open>APIError\<close> built by a caller: status 403 and no cause.\<close>

definition forbidden_without_cause :: error where
  "forbidden_without_cause = APIError ''custom'' 403 ''forbidden'' [] None"

section \<open>The canonical model (types.go)\<close>

text \<open>
  Go's \<open>int\<close> and \<open>int64\<close> are 64-bit words (a 64-bit platform), \<open>int32\<close> is a 32-bit
  word; \<open>int(x)\<close> of an \<open>int32\<close> sign-extends. A pointer field that may be nil is an
  \<open>option\<close>. Field names carry the struct's name, since a field name is global here.
\<close>

type_synonym int64 = "64 word"
type_synonym int32 = "32 word"

record FuncCall =
  FuncCall_Name :: string
  FuncCall_Arguments :: string

record ToolCall =
  ToolCall_ID :: string
  ToolCall_Type :: string
  ToolCall_Function :: FuncCall
  ToolCall_Index :: "int64 option"

text \<open>\<open>Role\<close> is a string type with four named values.\<close>

type_synonym Role = string

definition RoleSystem :: Role where "RoleSystem = ''system''"
definition RoleUser :: Role where "RoleUser = ''user''"
definition RoleAssistant :: Role where "RoleAssistant = ''assistant''"
definition RoleTool :: Role where "RoleTool = ''tool''"

record Message =
  Message_Role :: Role
  Message_Content :: string
  Message_Name :: string
  Message_ToolCalls :: "ToolCall list"
  Message_ToolCallID :: string

record Delta =
  Delta_Role :: Role
  Delta_Content :: string
  Delta_ToolCalls :: "ToolCall list"

record Usage =
  PromptTokens :: int64
  CompletionTokens :: int64
  TotalTokens :: int64

record Choice =
  Choice_Index :: int64
  Choice_Message :: "Message option"
  Choice_Delta :: "Delta option"
  Choice_FinishReason :: string

record Response =
  Response_ID :: string
  Response_Object :: string
  Response_Created :: int64
  Response_Model :: string
  Response_Choices :: "Choice list"
  Response_Usage :: "Usage option"
  Response_Provider :: string

datatype EventType = EventContentDelta | EventToolCallDelta | EventDone | EventError

record Event =
  Event_Type :: EventType
  Event_Content :: string
  Event_Delta :: "Delta option"
  Event_Response :: "Response option"
  Event_Error :: "error option"

text \<open>
  The zero value of \<open>Event\<close>, and the four composite literals the adapters and wrappers
  write: every field a literal does not name keeps its zero value.
\<close>

definition Event_zero :: Event where
  "Event_zero =
     \<lparr>Event_Type = EventContentDelta, Event_Content = [], Event_Delta = None,
      Event_Response = None, Event_Error = None\<rparr>"

definition ContentDelta_event :: "string \<Rightarrow> Event" where
  "ContentDelta_event txt = Event_zero\<lparr>Event_Type := EventContentDelta, Event_Content := txt\<rparr>"

definition ToolCallDelta_event :: "ToolCall list \<Rightarrow> Event" where
  "ToolCallDelta_event tcs =
     Event_zero\<lparr>Event_Type := EventToolCallDelta,
       Event_Delta := Some \<lparr>Delta_Role = [], Delta_Content = [], Delta_ToolCalls = tcs\<rparr>\<rparr>"

definition Done_event :: "Response \<Rightarrow> Event" where
  "Done_event r = Event_zero\<lparr>Event_Type := EventDone, Event_Response := Some r\<rparr>"

definition Error_event :: "error option \<Rightarrow> Event" where
  "Error_event e = Event_zero\<lparr>Event_Type := EventError, Event_Error := e\<rparr>"

text \<open>
  A request. The fields \<open>Tools\<close>, \<open>ToolChoice\<close>, \<open>Temperature\<close>, \<open>TopP\<close> and
  \<open>Metadata\<close> are copied or converted into the backend's parameters by code that neither
  reads nor writes the model name, the response or the events; they are left out.
\<close>

record Request =
  Request_Messages :: "Message list"
  Request_Model :: string
  Request_MaxTokens :: "int64 option"
  Request_Stop :: "string list"

text \<open>
  \<open>context.Context\<close>: the caller's context, or one derived from another by
  \<open>context.WithTimeout\<close> (a duration in nanoseconds).
\<close>

datatype ctx = Background | WithTimeout ctx int

section \<open>The provider contract (provider.go)\<close>

text \<open>
  A value of the \<open>Provider\<close> interface is the record of its five methods. The calls that
  reach a backend read and change the world outside the program (type \<open>'w\<close>): they take
  the world and return it with their result, so that the same call can fail once and
  succeed the next time. A channel of events is the list of events that a consumer who
  drains it receives before it is closed.
\<close>

record 'w Provider =
  Name :: string
  Models :: "string list"
  SupportsTools :: bool
  Complete :: "ctx \<Rightarrow> Request \<Rightarrow> 'w \<Rightarrow> (error + Response) \<times> 'w"
  Stream :: "ctx \<Rightarrow> Request \<Rightarrow> 'w \<Rightarrow> (error + Event list) \<times> 'w"

text \<open>A \<open>Middleware\<close> is its \<open>Wrap\<close> method.\<close>

type_synonym 'w Middleware = "'w Provider \<Rightarrow> 'w Provider"

text \<open>
  Two readings of a channel's events: the contents of the \<open>ContentDelta\<close> events, joined
  in order, and the content of the assistant message that the last event carries when
  that event is \<open>Done\<close>, that is \<open>Response.Choices[0].Message.Content\<close>.
\<close>

definition delta_text :: "Event list \<Rightarrow> string" where
  "delta_text es = concat (map Event_Content (filter (\<lambda>e. Event_Type e = EventContentDelta) es))"

definition Response_content :: "Response \<Rightarrow> string option" where
  "Response_content r =
     (case Response_Choices r of
        [] \<Rightarrow> None
      | ch # rest \<Rightarrow>
          (case Choice_Message ch of None \<Rightarrow> None | Some m \<Rightarrow> Some (Message_Content m)))"

definition terminal_Done_content :: "Event list \<Rightarrow> string option" where
  "terminal_Done_content es =
     (if es = [] then None
      else if Event_Type (last es) = EventDone then
        (case Event_Response (last es) of None \<Rightarrow> None | Some r \<Rightarrow> Response_content r)
      else None)"



text \<open>
  A terminal event is \<open>Done\<close> or \<open>Error\<close>. A channel is well terminated when it sends
  exactly one terminal event and sends it last.
\<close>

definition terminal :: "Event \<Rightarrow> bool" where
  "terminal e = (Event_Type e = EventDone \<or> Event_Type e = EventError)"

definition well_terminated :: "Event list \<Rightarrow> bool" where
  "well_terminated es =
     (es \<noteq> [] \<and> terminal (last es) \<and> length (filter terminal es) = 1)"

text \<open>The errors \<open>ctx.Err()\<close> returns.\<close>

definition context_Canceled :: error where
  "context_Canceled = Foreign ''context canceled'' None"

definition context_DeadlineExceeded :: error where
  "context_DeadlineExceeded = Foreign ''context deadline exceeded'' None"

section \<open>The router\<close>

text \<open>
  The registry \<open>providers\<close> is a Go map. It is modelled by an association list with
  distinct keys: a lookup is \<open>map_of\<close>, and the order of the list is the order in which
  a \<open>range\<close> over the map visits its entries during the call at hand. Go leaves that
  order unspecified, so a statement about the router is made for every order.
\<close>

record 'w Router =
  Router_providers :: "(string \<times> 'w Provider) list"
  Router_modelMap :: "string \<rightharpoonup> string"
  Router_fallbacks :: "string list"
  Router_middleware :: "'w Middleware list"

text \<open>The inner loop of \<open>resolveProvider\<close>: does the list of models hold this model?\<close>

fun declares :: "string list \<Rightarrow> string \<Rightarrow> bool" where
  "declares [] model = False"
| "declares (m # ms) model = (if m = model then True else declares ms model)"

text \<open>The outer loop: the first provider visited that declares the model.\<close>

fun scan_providers :: "(string \<times> 'w Provider) list \<Rightarrow> string \<Rightarrow> 'w Provider option" where
  "scan_providers [] model = None"
| "scan_providers ((n, p) # ps) model =
     (if declares (Models p) model then Some p else scan_providers ps model)"

definition resolveProvider :: "'w Router \<Rightarrow> string \<Rightarrow> error + 'w Provider" where
  "resolveProvider r model =
     (if length (Router_providers r) = 0 then Inl (Sentinel ErrNoProviders)
      else
        case (case Router_modelMap r model of
                Some providerName \<Rightarrow> map_of (Router_providers r) providerName
              | None \<Rightarrow> None) of
          Some p \<Rightarrow> Inr p
        | None \<Rightarrow>
            (case map_of (Router_providers r) model of
               Some p \<Rightarrow> Inr p
             | None \<Rightarrow>
                 (case scan_providers (Router_providers r) model of
                    Some p \<Rightarrow> Inr p
                  | None \<Rightarrow> Inl (Errorf (Sentinel ErrUnknownModel) model))))"

text \<open>
  \<open>buildChain\<close> wraps from the last middleware to the first, so the first one
  registered is the outermost.
\<close>

definition buildChain :: "'w Router \<Rightarrow> 'w Provider \<Rightarrow> 'w Provider" where
  "buildChain r provider = foldr (\<lambda>m result. m result) (Router_middleware r) provider"

definition Router_Complete ::
  "'w Router \<Rightarrow> ctx \<Rightarrow> Request \<Rightarrow> 'w \<Rightarrow> (error + Response) \<times> 'w" where
  "Router_Complete r c req w =
     (case resolveProvider r (Request_Model req) of
        Inl err \<Rightarrow> (Inl err, w)
      | Inr provider \<Rightarrow> Complete (buildChain r provider) c req w)"

definition Router_Route ::
  "'w Router \<Rightarrow> ctx \<Rightarrow> Request \<Rightarrow> 'w \<Rightarrow> (error + Event list) \<times> 'w" where
  "Router_Route r c req w =
     (case resolveProvider r (Request_Model req) of
        Inl err \<Rightarrow> (Inl err, w)
      | Inr provider \<Rightarrow> Stream (buildChain r provider) c req w)"

text \<open>The providers a lookup in the registry can return.\<close>

definition registered :: "'w Router \<Rightarrow> 'w Provider \<Rightarrow> bool" where
  "registered r p = (\<exists>n \<in> set (map fst (Router_providers r)). map_of (Router_providers r) n = Some p)"

text \<open>Does the model map send this model to a name that is in the registry?\<close>

definition mapped_to_registered :: "'w Router \<Rightarrow> string \<Rightarrow> bool" where
  "mapped_to_registered r model =
     (case Router_modelMap r model of
        Some n \<Rightarrow> map_of (Router_providers r) n \<noteq> None
      | None \<Rightarrow> False)"


section \<open>The Anthropic adapter\<close>

text \<open>
  What the adapter reads of the SDK's types. A content block is a text block, a tool-use
  block (its \<open>Input\<close> is held as the text \<open>json.Marshal\<close> gives for it) or a block of
  another kind; \<open>AsUnion\<close> and the type switch select among them.
\<close>

datatype anthropic_ContentBlock =
    TextBlock string
  | ToolUseBlock string string string
  | OtherBlock

record anthropic_Usage =
  InputTokens :: int64
  OutputTokens :: int64

record anthropic_Message =
  anthropic_Message_ID :: string
  anthropic_Message_Model :: string
  anthropic_Message_Content :: "anthropic_ContentBlock list"
  anthropic_Message_StopReason :: string
  anthropic_Message_Usage :: anthropic_Usage

text \<open>The loop of \<open>convertToOpenAIResponse\<close> over the content blocks.\<close>

fun collect_blocks ::
  "anthropic_ContentBlock list \<Rightarrow> string \<Rightarrow> ToolCall list \<Rightarrow> string \<times> ToolCall list" where
  "collect_blocks [] content toolCalls = (content, toolCalls)"
| "collect_blocks (TextBlock txt # bs) content toolCalls =
     collect_blocks bs (content @ txt) toolCalls"
| "collect_blocks (ToolUseBlock tid name input # bs) content toolCalls =
     collect_blocks bs content
       (toolCalls @
         [\<lparr>ToolCall_ID = tid, ToolCall_Type = ''function'',
           ToolCall_Function = \<lparr>FuncCall_Name = name, FuncCall_Arguments = input\<rparr>,
           ToolCall_Index = None\<rparr>])"
| "collect_blocks (OtherBlock # bs) content toolCalls = collect_blocks bs content toolCalls"

definition convertToOpenAIResponse :: "anthropic_Message \<Rightarrow> string \<Rightarrow> Response" where
  "convertToOpenAIResponse msg provider =
     (let (content, toolCalls) = collect_blocks (anthropic_Message_Content msg) [] [];
          finishReason =
            (if anthropic_Message_StopReason msg = ''tool_use'' then ''tool_calls''
             else if anthropic_Message_StopReason msg = ''max_tokens'' then ''length''
             else if anthropic_Message_StopReason msg = ''stop_sequence'' then ''stop''
             else ''stop'')
      in \<lparr>Response_ID = anthropic_Message_ID msg,
          Response_Object = ''chat.completion'',
          Response_Created = 0,
          Response_Model = anthropic_Message_Model msg,
          Response_Choices =
            [\<lparr>Choice_Index = 0,
              Choice_Message =
                Some \<lparr>Message_Role = RoleAssistant, Message_Content = content,
                      Message_Name = [], Message_ToolCalls = toolCalls,
                      Message_ToolCallID = []\<rparr>,
              Choice_Delta = None,
              Choice_FinishReason = finishReason\<rparr>],
          Response_Usage =
            Some \<lparr>PromptTokens = InputTokens (anthropic_Message_Usage msg),
                  CompletionTokens = OutputTokens (anthropic_Message_Usage msg),
                  TotalTokens =
                    InputTokens (anthropic_Message_Usage msg)
                    + OutputTokens (anthropic_Message_Usage msg)\<rparr>,
          Response_Provider = provider\<rparr>)"

text \<open>
  \<open>wrapError\<close> of the Anthropic adapter, called on a non-nil error: the SDK's typed error
  gives its status code, and three groups of codes replace the cause by a sentinel.
\<close>

definition anthropic_wrapError :: "error \<Rightarrow> error" where
  "anthropic_wrapError err =
     (case err of
        SDKError code m \<Rightarrow>
          APIError ''anthropic'' code (Error_text err) []
            (if code = 401 \<or> code = 403 then Some (Sentinel ErrAuthFailed)
             else if code = 429 then Some (Sentinel ErrRateLimited)
             else if code = 400 then Some (Sentinel ErrInvalidRequest)
             else Some err)
      | _ \<Rightarrow> APIError ''anthropic'' 0 (Error_text err) [] (Some err))"

text \<open>
  The parameters sent to the backend, as far as the request fields of the model above
  determine them.
\<close>

record anthropic_MessageNewParams =
  Params_Model :: string
  Params_MaxTokens :: int64
  Params_StopSequences :: "string list option"

text \<open>
  The events of the backend's stream that the adapter's type switch tells apart. A
  start event carries the message id and the input tokens, a message delta the stop
  reason and the output tokens.
\<close>

datatype anthropic_Delta = TextDelta string | InputJSONDelta string | OtherDelta

datatype anthropic_StreamEvent =
    MessageStartEvent string int64
  | ContentBlockStartEvent anthropic_ContentBlock
  | ContentBlockDeltaEvent anthropic_Delta
  | ContentBlockStopEvent
  | MessageDeltaEvent string int64
  | MessageStopEvent

text \<open>
  The adapter: its client (the two backend calls, which read and change the world; a
  streaming call yields the events received and the error \<open>stream.Err()\<close> reports after
  the last one), the default model, the declared models and the clock.
\<close>

record 'w anthropic_Provider =
  anthropic_client_New ::
    "ctx \<Rightarrow> anthropic_MessageNewParams \<Rightarrow> 'w \<Rightarrow> (error + anthropic_Message) \<times> 'w"
  anthropic_client_NewStreaming ::
    "ctx \<Rightarrow> anthropic_MessageNewParams \<Rightarrow> 'w
      \<Rightarrow> (anthropic_StreamEvent list \<times> error option) \<times> 'w"
  anthropic_model :: string
  anthropic_models :: "string list"
  anthropic_time_Now :: "'w \<Rightarrow> int64"

definition anthropic_Name :: "'w anthropic_Provider \<Rightarrow> string" where
  "anthropic_Name p = ''anthropic''"

text \<open>The parameters both \<open>Complete\<close> and \<open>Stream\<close> build, by the same code.\<close>

definition anthropic_params :: "'w anthropic_Provider \<Rightarrow> Request \<Rightarrow> anthropic_MessageNewParams" where
  "anthropic_params p req =
     (let model =
            (if Request_Model req = [] \<or> Request_Model req = ''anthropic''
             then anthropic_model p else Request_Model req);
          maxTokens = (case Request_MaxTokens req of None \<Rightarrow> 16384 | Some n \<Rightarrow> n)
      in \<lparr>Params_Model = model, Params_MaxTokens = maxTokens,
          Params_StopSequences =
            (if length (Request_Stop req) > 0 then Some (Request_Stop req) else None)\<rparr>)"

definition anthropic_Complete ::
  "'w anthropic_Provider \<Rightarrow> ctx \<Rightarrow> Request \<Rightarrow> 'w \<Rightarrow> (error + Response) \<times> 'w" where
  "anthropic_Complete p c req w =
     (case anthropic_client_New p c (anthropic_params p req) w of
        (Inl err, w') \<Rightarrow> (Inl (anthropic_wrapError err), w')
      | (Inr resp, w') \<Rightarrow> (Inr (convertToOpenAIResponse resp (anthropic_Name p)), w'))"

text \<open>The variables the streaming goroutine accumulates into.\<close>

record anthropic_acc =
  acc_fullContent :: string
  acc_toolCalls :: "ToolCall list"
  acc_currentToolID :: string
  acc_currentToolName :: string
  acc_toolArgsBuilder :: string
  acc_inputTokens :: int64
  acc_outputTokens :: int64
  acc_msgID :: string
  acc_stopReason :: string

definition anthropic_acc_zero :: anthropic_acc where
  "anthropic_acc_zero =
     \<lparr>acc_fullContent = [], acc_toolCalls = [], acc_currentToolID = [], acc_currentToolName = [],
      acc_toolArgsBuilder = [], acc_inputTokens = 0, acc_outputTokens = 0, acc_msgID = [],
      acc_stopReason = []\<rparr>"

text \<open>One turn of the loop: the new variables and the events sent on the channel.\<close>

fun anthropic_on_event :: "anthropic_acc \<Rightarrow> anthropic_StreamEvent \<Rightarrow> anthropic_acc \<times> Event list" where
  "anthropic_on_event a (MessageStartEvent mid inp) =
     (let a1 = (if mid \<noteq> [] then a\<lparr>acc_msgID := mid\<rparr> else a);
          a2 = (if 0 <s inp then a1\<lparr>acc_inputTokens := inp\<rparr> else a1)
      in (a2, []))"
| "anthropic_on_event a (ContentBlockStartEvent (ToolUseBlock tid name input)) =
     (a\<lparr>acc_currentToolID := tid, acc_currentToolName := name, acc_toolArgsBuilder := []\<rparr>, [])"
| "anthropic_on_event a (ContentBlockStartEvent cb) = (a, [])"
| "anthropic_on_event a (ContentBlockDeltaEvent (TextDelta txt)) =
     (a\<lparr>acc_fullContent := acc_fullContent a @ txt\<rparr>, [ContentDelta_event txt])"
| "anthropic_on_event a (ContentBlockDeltaEvent (InputJSONDelta partialJSON)) =
     (a\<lparr>acc_toolArgsBuilder := acc_toolArgsBuilder a @ partialJSON\<rparr>,
      [ToolCallDelta_event
         [\<lparr>ToolCall_ID = acc_currentToolID a, ToolCall_Type = ''function'',
           ToolCall_Function =
             \<lparr>FuncCall_Name = acc_currentToolName a, FuncCall_Arguments = partialJSON\<rparr>,
           ToolCall_Index = None\<rparr>]])"
| "anthropic_on_event a (ContentBlockDeltaEvent OtherDelta) = (a, [])"
| "anthropic_on_event a ContentBlockStopEvent =
     (if acc_currentToolID a \<noteq> [] \<and> acc_currentToolName a \<noteq> []
      then (a\<lparr>acc_toolCalls :=
                 acc_toolCalls a @
                   [\<lparr>ToolCall_ID = acc_currentToolID a, ToolCall_Type = ''function'',
                     ToolCall_Function =
                       \<lparr>FuncCall_Name = acc_currentToolName a,
                        FuncCall_Arguments = acc_toolArgsBuilder a\<rparr>,
                     ToolCall_Index = None\<rparr>],
               acc_currentToolID := [], acc_currentToolName := [], acc_toolArgsBuilder := []\<rparr>, [])
      else (a, []))"
| "anthropic_on_event a (MessageDeltaEvent sr out) =
     (let a1 = (if sr \<noteq> [] then a\<lparr>acc_stopReason := sr\<rparr> else a);
          a2 = (if 0 <s out then a1\<lparr>acc_outputTokens := out\<rparr> else a1)
      in (a2, []))"
| "anthropic_on_event a MessageStopEvent = (a, [])"

text \<open>The loop \<open>for stream.Next()\<close>: the final variables and all events sent, in order.\<close>

fun anthropic_loop :: "anthropic_acc \<Rightarrow> anthropic_StreamEvent list \<Rightarrow> anthropic_acc \<times> Event list" where
  "anthropic_loop a [] = (a, [])"
| "anthropic_loop a (e # es) =
     (let (a1, sent) = anthropic_on_event a e;
          (a2, more) = anthropic_loop a1 es
      in (a2, sent @ more))"

text \<open>The response of the \<open>Done\<close> event, built after the loop.\<close>

definition anthropic_final_Response :: "anthropic_acc \<Rightarrow> string \<Rightarrow> string \<Rightarrow> int64 \<Rightarrow> Response" where
  "anthropic_final_Response a model provider now =
     (let finishReason =
            (if acc_stopReason a = ''tool_use'' then ''tool_calls''
             else if acc_stopReason a = ''max_tokens'' then ''length''
             else ''stop'')
      in \<lparr>Response_ID = acc_msgID a,
          Response_Object = ''chat.completion'',
          Response_Created = now,
          Response_Model = model,
          Response_Choices =
            [\<lparr>Choice_Index = 0,
              Choice_Message =
                Some \<lparr>Message_Role = RoleAssistant, Message_Content = acc_fullContent a,
                      Message_Name = [], Message_ToolCalls = acc_toolCalls a,
                      Message_ToolCallID = []\<rparr>,
              Choice_Delta = None,
              Choice_FinishReason = finishReason\<rparr>],
          Response_Usage =
            Some \<lparr>PromptTokens = acc_inputTokens a, CompletionTokens = acc_outputTokens a,
                  TotalTokens = acc_inputTokens a + acc_outputTokens a\<rparr>,
          Response_Provider = provider\<rparr>)"

text \<open>
  Everything the goroutine of \<open>Stream\<close> sends before it closes the channel, given what
  the backend's stream delivers: the events of the loop, then one \<open>Error\<close> event if the
  stream ended with an error, one \<open>Done\<close> event otherwise.
\<close>

definition anthropic_goroutine ::
  "string \<Rightarrow> string \<Rightarrow> int64 \<Rightarrow> anthropic_StreamEvent list \<times> error option \<Rightarrow> Event list" where
  "anthropic_goroutine model provider now backend =
     (let (a, sent) = anthropic_loop anthropic_acc_zero (fst backend)
      in case snd backend of
           Some err \<Rightarrow> sent @ [Error_event (Some (anthropic_wrapError err))]
         | None \<Rightarrow> sent @ [Done_event (anthropic_final_Response a model provider now)])"

definition anthropic_Stream ::
  "'w anthropic_Provider \<Rightarrow> ctx \<Rightarrow> Request \<Rightarrow> 'w \<Rightarrow> (error + Event list) \<times> 'w" where
  "anthropic_Stream p c req w =
     (case anthropic_client_NewStreaming p c (anthropic_params p req) w of
        (backend, w') \<Rightarrow>
          (Inr (anthropic_goroutine (Params_Model (anthropic_params p req)) (anthropic_Name p)
                  (anthropic_time_Now p w') backend), w'))"

text \<open>The adapter as a value of the \<open>Provider\<close> interface.\<close>

definition anthropic_as_Provider :: "'w anthropic_Provider \<Rightarrow> 'w Provider" where
  "anthropic_as_Provider p =
     \<lparr>Name = anthropic_Name p, Models = anthropic_models p, SupportsTools = True,
      Complete = anthropic_Complete p, Stream = anthropic_Stream p\<rparr>"

section \<open>The Gemini adapter\<close>

text \<open>
  What the adapter reads of the SDK's types. A part is a text, a function call (its
  \<open>Args\<close> map is \<open>None\<close> when nil, and otherwise held as the text \<open>json.Marshal\<close> gives
  for it) or a part of another kind. A candidate's \<open>Content\<close> may be nil.
\<close>

datatype genai_Part = genai_Text string | genai_FunctionCall string "string option" | genai_OtherPart

datatype genai_FinishReason =
    FinishReasonUnspecified
  | FinishReasonStop
  | FinishReasonMaxTokens
  | FinishReasonSafety
  | FinishReasonRecitation
  | FinishReasonOther

record genai_Candidate =
  Candidate_Content :: "genai_Part list option"
  Candidate_FinishReason :: genai_FinishReason

record genai_UsageMetadata =
  PromptTokenCount :: int32
  CandidatesTokenCount :: int32
  TotalTokenCount :: int32

record genai_GenerateContentResponse =
  Candidates :: "genai_Candidate list"
  UsageMetadata :: "genai_UsageMetadata option"

definition convertFunctionCallArgs :: "string option \<Rightarrow> string" where
  "convertFunctionCallArgs args = (case args of None \<Rightarrow> ''{}'' | Some b \<Rightarrow> b)"

definition gemini_ToolCall :: "string \<Rightarrow> string option \<Rightarrow> ToolCall" where
  "gemini_ToolCall name args =
     \<lparr>ToolCall_ID = name, ToolCall_Type = ''function'',
      ToolCall_Function =
        \<lparr>FuncCall_Name = name, FuncCall_Arguments = convertFunctionCallArgs args\<rparr>,
      ToolCall_Index = None\<rparr>"

text \<open>The loop of \<open>convertResponse\<close> over the parts of the first candidate.\<close>

fun collect_parts :: "genai_Part list \<Rightarrow> string \<Rightarrow> ToolCall list \<Rightarrow> string \<times> ToolCall list" where
  "collect_parts [] content toolCalls = (content, toolCalls)"
| "collect_parts (genai_Text txt # ps) content toolCalls =
     collect_parts ps (content @ txt) toolCalls"
| "collect_parts (genai_FunctionCall name args # ps) content toolCalls =
     collect_parts ps content (toolCalls @ [gemini_ToolCall name args])"
| "collect_parts (genai_OtherPart # ps) content toolCalls = collect_parts ps content toolCalls"

definition gemini_convertResponse ::
  "genai_GenerateContentResponse \<Rightarrow> string \<Rightarrow> string \<Rightarrow> int64 \<Rightarrow> Response" where
  "gemini_convertResponse resp model provider now =
     (let (content, toolCalls) =
            (case Candidates resp of
               [] \<Rightarrow> ([], [])
             | cand # rest \<Rightarrow>
                 (case Candidate_Content cand of
                    None \<Rightarrow> ([], [])
                  | Some parts \<Rightarrow> collect_parts parts [] []));
          finishReason =
            (if length toolCalls > 0 then ''tool_calls''
             else
               (case Candidates resp of
                  [] \<Rightarrow> ''stop''
                | cand # rest \<Rightarrow>
                    (case Candidate_FinishReason cand of
                       FinishReasonMaxTokens \<Rightarrow> ''length''
                     | FinishReasonStop \<Rightarrow> ''stop''
                     | FinishReasonSafety \<Rightarrow> ''content_filter''
                     | _ \<Rightarrow> ''stop'')));
          usage =
            (case UsageMetadata resp of
               None \<Rightarrow> None
             | Some um \<Rightarrow>
                 Some \<lparr>PromptTokens = scast (PromptTokenCount um),
                       CompletionTokens = scast (CandidatesTokenCount um),
                       TotalTokens = scast (TotalTokenCount um)\<rparr>)
      in \<lparr>Response_ID = [],
          Response_Object = ''chat.completion'',
          Response_Created = now,
          Response_Model = model,
          Response_Choices =
            [\<lparr>Choice_Index = 0,
              Choice_Message =
                Some \<lparr>Message_Role = RoleAssistant, Message_Content = content,
                      Message_Name = [], Message_ToolCalls = toolCalls,
                      Message_ToolCallID = []\<rparr>,
              Choice_Delta = None,
              Choice_FinishReason = finishReason\<rparr>],
          Response_Usage = usage,
          Response_Provider = provider\<rparr>)"

definition gemini_wrapError :: "error \<Rightarrow> error" where
  "gemini_wrapError err = APIError ''gemini'' 0 (Error_text err) [] (Some err)"

text \<open>
  What a call tells the backend, as far as the request fields of the model above
  determine it: the name given to \<open>GenerativeModel\<close>, what \<open>configureModel\<close> sets (the
  token limit, the stop sequences, the first system message) and the last user message
  that \<open>convertHistory\<close> returns. The chat history is not modelled.
\<close>

record gemini_call =
  Call_Model :: string
  Call_MaxOutputTokens :: int32
  Call_StopSequences :: "string list"
  Call_SystemInstruction :: "string option"
  Call_lastMsg :: string

text \<open>The loop of \<open>configureModel\<close> over the messages stops at the first system message.\<close>

fun first_system :: "Message list \<Rightarrow> string option" where
  "first_system [] = None"
| "first_system (m # ms) =
     (if Message_Role m = RoleSystem then Some (Message_Content m) else first_system ms)"

text \<open>\<open>convertHistory\<close> keeps the content of a user message only when it is the last one.\<close>

fun lastUserMsg :: "Message list \<Rightarrow> string" where
  "lastUserMsg [] = []"
| "lastUserMsg [m] = (if Message_Role m = RoleUser then Message_Content m else [])"
| "lastUserMsg (m # ms) = lastUserMsg ms"

record 'w gemini_Provider =
  gemini_SendMessage :: "ctx \<Rightarrow> gemini_call \<Rightarrow> 'w \<Rightarrow> (error + genai_GenerateContentResponse) \<times> 'w"
  gemini_SendMessageStream ::
    "ctx \<Rightarrow> gemini_call \<Rightarrow> 'w \<Rightarrow> (genai_GenerateContentResponse list \<times> error option) \<times> 'w"
  gemini_model :: string
  gemini_models :: "string list"
  gemini_time_Now :: "'w \<Rightarrow> int64"

definition gemini_Name :: "'w gemini_Provider \<Rightarrow> string" where
  "gemini_Name p = ''gemini''"

definition gemini_build_call :: "'w gemini_Provider \<Rightarrow> Request \<Rightarrow> gemini_call" where
  "gemini_build_call p req =
     (let modelName = (if Request_Model req = [] then gemini_model p else Request_Model req)
      in \<lparr>Call_Model = modelName,
          Call_MaxOutputTokens =
            (case Request_MaxTokens req of None \<Rightarrow> 16384 | Some n \<Rightarrow> ucast n),
          Call_StopSequences = (if length (Request_Stop req) > 0 then Request_Stop req else []),
          Call_SystemInstruction = first_system (Request_Messages req),
          Call_lastMsg = lastUserMsg (Request_Messages req)\<rparr>)"

definition gemini_Complete ::
  "'w gemini_Provider \<Rightarrow> ctx \<Rightarrow> Request \<Rightarrow> 'w \<Rightarrow> (error + Response) \<times> 'w" where
  "gemini_Complete p c req w =
     (case gemini_SendMessage p c (gemini_build_call p req) w of
        (Inl err, w') \<Rightarrow> (Inl (gemini_wrapError err), w')
      | (Inr resp, w') \<Rightarrow>
          (Inr (gemini_convertResponse resp (Call_Model (gemini_build_call p req))
                  (gemini_Name p) (gemini_time_Now p w')), w'))"

text \<open>
  The streaming goroutine. The variables are the content and the tool calls gathered so
  far; the three nested loops run over the parts of a candidate, the candidates of a
  response and the responses of the iterator. Each returns the variables and the events
  sent on the channel.
\<close>

fun gemini_on_parts ::
  "string \<times> ToolCall list \<Rightarrow> genai_Part list \<Rightarrow> (string \<times> ToolCall list) \<times> Event list" where
  "gemini_on_parts acc [] = (acc, [])"
| "gemini_on_parts (fullc, tcs) (genai_Text txt # ps) =
     (let (acc', more) = gemini_on_parts (fullc @ txt, tcs) ps
      in (acc', ContentDelta_event txt # more))"
| "gemini_on_parts (fullc, tcs) (genai_FunctionCall name args # ps) =
     (let tc = gemini_ToolCall name args;
          (acc', more) = gemini_on_parts (fullc, tcs @ [tc]) ps
      in (acc', ToolCallDelta_event [tc] # more))"
| "gemini_on_parts acc (genai_OtherPart # ps) = gemini_on_parts acc ps"

fun gemini_on_candidates ::
  "string \<times> ToolCall list \<Rightarrow> genai_Candidate list \<Rightarrow> (string \<times> ToolCall list) \<times> Event list" where
  "gemini_on_candidates acc [] = (acc, [])"
| "gemini_on_candidates acc (cand # cs) =
     (case Candidate_Content cand of
        None \<Rightarrow> gemini_on_candidates acc cs
      | Some parts \<Rightarrow>
          (let (acc1, sent) = gemini_on_parts acc parts;
               (acc2, more) = gemini_on_candidates acc1 cs
           in (acc2, sent @ more)))"

fun gemini_on_responses ::
  "string \<times> ToolCall list \<Rightarrow> genai_GenerateContentResponse list
    \<Rightarrow> (string \<times> ToolCall list) \<times> Event list" where
  "gemini_on_responses acc [] = (acc, [])"
| "gemini_on_responses acc (resp # rs) =
     (let (acc1, sent) = gemini_on_candidates acc (Candidates resp);
          (acc2, more) = gemini_on_responses acc1 rs
      in (acc2, sent @ more))"

definition gemini_final_Response :: "string \<times> ToolCall list \<Rightarrow> string \<Rightarrow> string \<Rightarrow> int64 \<Rightarrow> Response" where
  "gemini_final_Response acc modelName provider now =
     (let finishReason = (if length (snd acc) > 0 then ''tool_calls'' else ''stop'')
      in \<lparr>Response_ID = [],
          Response_Object = ''chat.completion'',
          Response_Created = now,
          Response_Model = modelName,
          Response_Choices =
            [\<lparr>Choice_Index = 0,
              Choice_Message =
                Some \<lparr>Message_Role = RoleAssistant, Message_Content = fst acc,
                      Message_Name = [], Message_ToolCalls = snd acc,
                      Message_ToolCallID = []\<rparr>,
              Choice_Delta = None,
              Choice_FinishReason = finishReason\<rparr>],
          Response_Usage = None,
          Response_Provider = provider\<rparr>)"

text \<open>
  Everything the goroutine sends before it closes the channel, given the responses the
  iterator yields and the error, if any, that ends them in place of \<open>iterator.Done\<close>.
\<close>

definition gemini_goroutine ::
  "string \<Rightarrow> string \<Rightarrow> int64 \<Rightarrow> genai_GenerateContentResponse list \<times> error option \<Rightarrow> Event list" where
  "gemini_goroutine modelName provider now backend =
     (let (acc, sent) = gemini_on_responses ([], []) (fst backend)
      in case snd backend of
           Some err \<Rightarrow> sent @ [Error_event (Some (gemini_wrapError err))]
         | None \<Rightarrow> sent @ [Done_event (gemini_final_Response acc modelName provider now)])"

definition gemini_Stream ::
  "'w gemini_Provider \<Rightarrow> ctx \<Rightarrow> Request \<Rightarrow> 'w \<Rightarrow> (error + Event list) \<times> 'w" where
  "gemini_Stream p c req w =
     (case gemini_SendMessageStream p c (gemini_build_call p req) w of
        (backend, w') \<Rightarrow>
          (Inr (gemini_goroutine (Call_Model (gemini_build_call p req)) (gemini_Name p)
                  (gemini_time_Now p w') backend), w'))"

definition gemini_as_Provider :: "'w gemini_Provider \<Rightarrow> 'w Provider" where
  "gemini_as_Provider p =
     \<lparr>Name = gemini_Name p, Models = gemini_models p, SupportsTools = True,
      Complete = gemini_Complete p, Stream = gemini_Stream p\<rparr>"

section \<open>The runtime the wrappers wait on\<close>

text \<open>
  A \<open>select\<close> with a case \<open><-ctx.Done()\<close> depends on when the context is cancelled or
  its deadline passes, and, when several cases are ready, on Go's random choice among
  them. Both belong to the world: a select is a call that takes the world and answers
  \<open>Some err\<close> when the \<open>Done\<close> case is the one taken (\<open>err\<close> being \<open>ctx.Err()\<close>), and
  \<open>None\<close> when the other case is.
  \<^item> \<open>select_Done c\<close>: a select whose other case is a channel operation;
  \<^item> \<open>sleep_or_Done c d\<close>: the select whose other case is \<open><-time.After(d)\<close>.
  \<open>float_overflow\<close> is the \<open>int64\<close> that the platform's conversion gives for a
  \<open>float64\<close> that is outside the range of \<open>int64\<close>, or not a number: the language leaves
  that result to the implementation.
\<close>

record 'w runtime =
  select_Done :: "ctx \<Rightarrow> 'w \<Rightarrow> error option \<times> 'w"
  sleep_or_Done :: "ctx \<Rightarrow> int \<Rightarrow> 'w \<Rightarrow> error option \<times> 'w"
  float_overflow :: int

section \<open>The timeout wrapper (middleware/timeout.go)\<close>

record 'w timeoutProvider =
  timeout_Provider :: "'w Provider"
  timeout :: int

definition timeout_Complete ::
  "'w timeoutProvider \<Rightarrow> ctx \<Rightarrow> Request \<Rightarrow> 'w \<Rightarrow> (error + Response) \<times> 'w" where
  "timeout_Complete p c req w =
     Complete (timeout_Provider p) (WithTimeout c (timeout p)) req w"

text \<open>
  The goroutine of \<open>timeoutProvider.Stream\<close>, on what is left of the inner channel. Each
  turn of the loop runs the outer select, and after receiving an event the inner one.
  The result is what is sent on \<open>outCh\<close> before it is closed.
\<close>

fun timeout_forward :: "'w runtime \<Rightarrow> ctx \<Rightarrow> Event list \<Rightarrow> 'w \<Rightarrow> Event list \<times> 'w" where
  "timeout_forward rt c [] w =
     (case select_Done rt c w of
        (Some cerr, w1) \<Rightarrow> ([Error_event (Some cerr)], w1)
      | (None, w1) \<Rightarrow> ([], w1))"
| "timeout_forward rt c (event # ch) w =
     (case select_Done rt c w of
        (Some cerr, w1) \<Rightarrow> ([Error_event (Some cerr)], w1)
      | (None, w1) \<Rightarrow>
          (case select_Done rt c w1 of
             (Some cerr, w2) \<Rightarrow> ([Error_event (Some cerr)], w2)
           | (None, w2) \<Rightarrow>
               (let (sent, w3) = timeout_forward rt c ch w2 in (event # sent, w3))))"

definition timeout_Stream ::
  "'w runtime \<Rightarrow> 'w timeoutProvider \<Rightarrow> ctx \<Rightarrow> Request \<Rightarrow> 'w \<Rightarrow> (error + Event list) \<times> 'w" where
  "timeout_Stream rt p c req w =
     (case Stream (timeout_Provider p) (WithTimeout c (timeout p)) req w of
        (Inl err, w1) \<Rightarrow> (Inl err, w1)
      | (Inr ch, w1) \<Rightarrow>
          (let (outCh, w2) = timeout_forward rt (WithTimeout c (timeout p)) ch w1
           in (Inr outCh, w2)))"

text \<open>\<open>TimeoutMiddleware.Wrap\<close>: the embedded provider answers the other three methods.\<close>

definition TimeoutMiddleware_Wrap :: "'w runtime \<Rightarrow> int \<Rightarrow> 'w Middleware" where
  "TimeoutMiddleware_Wrap rt tmo next =
     (let p = \<lparr>timeout_Provider = next, timeout = tmo\<rparr>
      in \<lparr>Name = Name next, Models = Models next, SupportsTools = SupportsTools next,
          Complete = timeout_Complete p, Stream = timeout_Stream rt p\<rparr>)"

section \<open>The retry wrapper\<close>

record RetryMiddleware =
  RetryMiddleware_maxAttempts :: int
  RetryMiddleware_baseDelay :: int
  RetryMiddleware_maxDelay :: int
  RetryMiddleware_retryable :: "error option \<Rightarrow> bool"

text \<open>Durations are nanoseconds; the default maximum is thirty seconds.\<close>

definition NewRetryMiddleware :: "int \<Rightarrow> int \<Rightarrow> RetryMiddleware" where
  "NewRetryMiddleware maxA baseD =
     \<lparr>RetryMiddleware_maxAttempts = maxA, RetryMiddleware_baseDelay = baseD,
      RetryMiddleware_maxDelay = 30 * 1000000000, RetryMiddleware_retryable = IsRetryable\<rparr>"

definition WithMaxDelay :: "RetryMiddleware \<Rightarrow> int \<Rightarrow> RetryMiddleware" where
  "WithMaxDelay m d = m\<lparr>RetryMiddleware_maxDelay := d\<rparr>"

definition WithRetryFunc :: "RetryMiddleware \<Rightarrow> (error option \<Rightarrow> bool) \<Rightarrow> RetryMiddleware" where
  "WithRetryFunc m f = m\<lparr>RetryMiddleware_retryable := f\<rparr>"

record 'w retryProvider =
  retry_Provider :: "'w Provider"
  maxAttempts :: int
  baseDelay :: int
  maxDelay :: int
  retryable :: "error option \<Rightarrow> bool"

text \<open>
  \<open>calculateBackoff\<close> multiplies in \<open>float64\<close>. \<open>float64_of_int64 x\<close> is the value of
  \<open>float64(x)\<close>: \<open>x\<close> itself when it has at most 53 significant bits, and otherwise
  \<open>x\<close> rounded to 53 bits, ties to even. \<open>math.Pow(2, n)\<close> is exact for
  \<open>0 \<le> n < 1024\<close> and infinite from 1024 on; for a negative \<open>n\<close> the product is the
  scaled value, and the conversion to \<open>int64\<close> drops its fraction. A product that is
  within the range of \<open>int64\<close> is exact and converts to itself; any other converts
  to \<open>float_overflow\<close>.
\<close>

fun bit_length :: "nat \<Rightarrow> nat" where
  "bit_length n = (if n = 0 then 0 else Suc (bit_length (n div 2)))"

definition float64_of_int64 :: "int \<Rightarrow> int" where
  "float64_of_int64 x =
     (if \<bar>x\<bar> < 2 ^ 53 then x
      else
        (let q = 2 ^ (bit_length (nat \<bar>x\<bar>) - 53);
             d = \<bar>x\<bar> div q;
             r = \<bar>x\<bar> mod q;
             d' = (if 2 * r > q \<or> (2 * r = q \<and> odd d) then d + 1 else d)
         in sgn x * d' * q))"

definition calculateBackoff :: "int \<Rightarrow> 'w retryProvider \<Rightarrow> int \<Rightarrow> int" where
  "calculateBackoff ovf p attempt =
     (let f = float64_of_int64 (baseDelay p);
          n = attempt - 1;
          delay =
            (if n \<ge> 1024 then ovf
             else if n \<ge> 0 then
               (if - (2 ^ 63) \<le> f * 2 ^ nat n \<and> f * 2 ^ nat n < 2 ^ 63
                then f * 2 ^ nat n else ovf)
             else sgn f * (\<bar>f\<bar> div 2 ^ nat (- n)))
      in if delay > maxDelay p then maxDelay p else delay)"

text \<open>
  What a run of the wrapper does, in order: \<open>Backoff d\<close> is a select on the context and
  \<open>time.After(d)\<close>, \<open>Invoke\<close> a call of the underlying provider. The trace is not a value
  of the program; it records the run so that attempts and sleeps can be counted.
\<close>

datatype retry_step = Backoff int | Invoke

text \<open>
  The first statement of the loop's body: before every attempt but the first, wait for
  the backoff or for the context. The result is \<open>ctx.Err()\<close> when the context is done
  first, then the world and the step taken.
\<close>

definition retry_wait ::
  "'w runtime \<Rightarrow> 'w retryProvider \<Rightarrow> ctx \<Rightarrow> int \<Rightarrow> 'w \<Rightarrow> error option \<times> 'w \<times> retry_step list" where
  "retry_wait rt p c attempt w =
     (if attempt > 0
      then (case sleep_or_Done rt c (calculateBackoff (float_overflow rt) p attempt) w of
              (done, w1) \<Rightarrow> (done, w1, [Backoff (calculateBackoff (float_overflow rt) p attempt)]))
      else (None, w, []))"

text \<open>
  The loop of \<open>retryProvider.Complete\<close> and of \<open>retryProvider.Stream\<close>, which differ only
  in the method \<open>call\<close> of the underlying provider. The arguments \<open>attempt\<close> and
  \<open>lastErr\<close> are the loop's variables.
\<close>

function retry_loop ::
  "'w runtime \<Rightarrow> 'w retryProvider \<Rightarrow> ctx \<Rightarrow> ('w \<Rightarrow> (error + 'a) \<times> 'w) \<Rightarrow> int
    \<Rightarrow> error option \<Rightarrow> 'w \<Rightarrow> (error + 'a) \<times> 'w \<times> retry_step list" where
  "retry_loop rt p c call attempt lastErr w =
     (if attempt < maxAttempts p then
        (case retry_wait rt p c attempt w of
           (Some cerr, w1, slept) \<Rightarrow> (Inl cerr, w1, slept)
         | (None, w1, slept) \<Rightarrow>
             (case call w1 of
                (Inr resp, w2) \<Rightarrow> (Inr resp, w2, slept @ [Invoke])
              | (Inl err, w2) \<Rightarrow>
                  if \<not> retryable p (Some err) then (Inl err, w2, slept @ [Invoke])
                  else
                    (case retry_loop rt p c call (attempt + 1) (Some err) w2 of
                       (res, w3, steps) \<Rightarrow> (res, w3, slept @ Invoke # steps))))
      else (Inl (Errorf (Sentinel ErrMaxRetriesExceed) (fmt_v lastErr)), w, []))"
  by pat_completeness auto
termination
  by (relation "measure (\<lambda>(rt, p, c, call, attempt, lastErr, w). nat (maxAttempts p - attempt))")
    auto

definition retry_Complete ::
  "'w runtime \<Rightarrow> 'w retryProvider \<Rightarrow> ctx \<Rightarrow> Request \<Rightarrow> 'w
    \<Rightarrow> (error + Response) \<times> 'w \<times> retry_step list" where
  "retry_Complete rt p c req w = retry_loop rt p c (Complete (retry_Provider p) c req) 0 None w"

definition retry_Stream ::
  "'w runtime \<Rightarrow> 'w retryProvider \<Rightarrow> ctx \<Rightarrow> Request \<Rightarrow> 'w
    \<Rightarrow> (error + Event list) \<times> 'w \<times> retry_step list" where
  "retry_Stream rt p c req w = retry_loop rt p c (Stream (retry_Provider p) c req) 0 None w"

text \<open>\<open>RetryMiddleware.Wrap\<close>; as a \<open>Provider\<close> the wrapper gives its result and the world.\<close>

definition RetryMiddleware_retryProvider :: "RetryMiddleware \<Rightarrow> 'w Provider \<Rightarrow> 'w retryProvider" where
  "RetryMiddleware_retryProvider m next =
     \<lparr>retry_Provider = next,
      maxAttempts = RetryMiddleware_maxAttempts m,
      baseDelay = RetryMiddleware_baseDelay m,
      maxDelay = RetryMiddleware_maxDelay m,
      retryable = RetryMiddleware_retryable m\<rparr>"

definition RetryMiddleware_Wrap :: "'w runtime \<Rightarrow> RetryMiddleware \<Rightarrow> 'w Middleware" where
  "RetryMiddleware_Wrap rt m next =
     (let p = RetryMiddleware_retryProvider m next
      in \<lparr>Name = Name next, Models = Models next, SupportsTools = SupportsTools next,
          Complete = (\<lambda>c req w. case retry_Complete rt p c req w of (res, w', steps) \<Rightarrow> (res, w')),
          Stream = (\<lambda>c req w. case retry_Stream rt p c req w of (res, w', steps) \<Rightarrow> (res, w'))\<rparr>)"

text \<open>The number of calls of the underlying provider in a trace.\<close>

definition invocations :: "retry_step list \<Rightarrow> nat" where
  "invocations steps = length (filter (\<lambda>s. s = Invoke) steps)"

declare retry_loop.simps [simp del]

text \<open>The sleeps of a trace, in order.\<close>

fun backoffs :: "retry_step list \<Rightarrow> int list" where
  "backoffs [] = []"
| "backoffs (Backoff d # steps) = d # backoffs steps"
| "backoffs (Invoke # steps) = backoffs steps"

text \<open>
  Three conditions on a run of the retry wrapper. The context is never done while the
  wrapper sleeps. The underlying call fails on every attempt, with an error the
  classifier accepts for a retry. The base delay is a whole number of nanoseconds that
  \<open>float64\<close> holds exactly, and the doubled delays up to the last sleep stay within
  \<open>int64\<close>, so that the arithmetic of \<open>calculateBackoff\<close> is exact.
\<close>

definition never_done :: "'w runtime \<Rightarrow> ctx \<Rightarrow> bool" where
  "never_done rt c = (\<forall>d w. fst (sleep_or_Done rt c d w) = None)"

definition fails_retryably :: "'w retryProvider \<Rightarrow> ('w \<Rightarrow> (error + 'a) \<times> 'w) \<Rightarrow> bool" where
  "fails_retryably p call =
     (\<forall>w. case fst (call w) of Inl err \<Rightarrow> retryable p (Some err) | Inr resp \<Rightarrow> False)"

definition exact_delays :: "'w retryProvider \<Rightarrow> bool" where
  "exact_delays p =
     (\<bar>baseDelay p\<bar> < 2 ^ 53 \<and> maxAttempts p \<le> 1025
      \<and> (\<forall>i::nat. int i + 1 < maxAttempts p
            \<longrightarrow> - (2 ^ 63) \<le> baseDelay p * 2 ^ i \<and> baseDelay p * 2 ^ i < 2 ^ 63))"

text \<open>
  For every call of the underlying provider in a trace, in order, the sleeps that the
  wrapper went through since the call before it (\<open>pending\<close> holds those met so far).
\<close>

fun waits_before :: "retry_step list \<Rightarrow> int list \<Rightarrow> int list list" where
  "waits_before [] pending = []"
| "waits_before (Backoff d # steps) pending = waits_before steps (pending @ [d])"
| "waits_before (Invoke # steps) pending = pending # waits_before steps []"

text \<open>The wrappers of the timeout and of the retry middleware.\<close>

definition shipped :: "'w runtime \<Rightarrow> 'w Middleware \<Rightarrow> bool" where
  "shipped rt m =
     ((\<exists>tmo. m = TimeoutMiddleware_Wrap rt tmo) \<or> (\<exists>cfg. m = RetryMiddleware_Wrap rt cfg))"

section \<open>Concrete inputs\<close>

text \<open>
  Values at which the statements below are evaluated. The world of these examples is
  the number of backend calls made so far.
\<close>

definition failing_Provider :: "string \<Rightarrow> string list \<Rightarrow> nat Provider" where
  "failing_Provider name models =
     \<lparr>Name = name, Models = models, SupportsTools = True,
      Complete = (\<lambda>c req w. (Inl (APIError name 429 ''slow down'' [] (Some (Sentinel ErrRateLimited))), Suc w)),
      Stream = (\<lambda>c req w. (Inl (APIError name 429 ''slow down'' [] (Some (Sentinel ErrRateLimited))), Suc w))\<rparr>"

definition empty_Router :: "nat Router" where
  "empty_Router =
     \<lparr>Router_providers = [], Router_modelMap = Map.empty, Router_fallbacks = [],
      Router_middleware = []\<rparr>"

definition two_Router :: "nat Router" where
  "two_Router =
     \<lparr>Router_providers =
        [(''a'', failing_Provider ''a'' [''m1'']),
         (''b'', failing_Provider ''b'' [''m2'', ''m3''])],
      Router_modelMap = [''fast'' \<mapsto> ''b''],
      Router_fallbacks = [],
      Router_middleware = []\<rparr>"

text \<open>
  An Anthropic adapter and a Gemini adapter over backends that answer every call with a
  fixed reply, naming in it the model they were asked for.
\<close>

definition hello_Message :: anthropic_Message where
  "hello_Message =
     \<lparr>anthropic_Message_ID = ''msg_1'', anthropic_Message_Model = [],
      anthropic_Message_Content = [TextBlock ''hello''],
      anthropic_Message_StopReason = ''end_turn'',
      anthropic_Message_Usage = \<lparr>InputTokens = 1, OutputTokens = 1\<rparr>\<rparr>"

definition hello_events :: "anthropic_StreamEvent list" where
  "hello_events =
     [MessageStartEvent ''msg_1'' 3,
      ContentBlockStartEvent (TextBlock []),
      ContentBlockDeltaEvent (TextDelta ''he''),
      ContentBlockDeltaEvent (TextDelta ''llo''),
      ContentBlockStopEvent,
      MessageDeltaEvent ''end_turn'' 2,
      MessageStopEvent]"

definition echo_anthropic :: "nat anthropic_Provider" where
  "echo_anthropic =
     \<lparr>anthropic_client_New =
        (\<lambda>c ps w. (Inr (hello_Message\<lparr>anthropic_Message_Model := Params_Model ps\<rparr>), Suc w)),
      anthropic_client_NewStreaming = (\<lambda>c ps w. ((hello_events, None), Suc w)),
      anthropic_model = ''claude-sonnet-4-20250514'',
      anthropic_models = [''claude-sonnet-4-20250514'', ''claude-3-5-haiku-20241022''],
      anthropic_time_Now = (\<lambda>w. 1700000000)\<rparr>"

definition hello_parts :: genai_GenerateContentResponse where
  "hello_parts =
     \<lparr>Candidates =
        [\<lparr>Candidate_Content = Some [genai_Text ''he'', genai_Text ''llo''],
          Candidate_FinishReason = FinishReasonStop\<rparr>],
      UsageMetadata = None\<rparr>"

definition echo_gemini :: "nat gemini_Provider" where
  "echo_gemini =
     \<lparr>gemini_SendMessage = (\<lambda>c call w. (Inr hello_parts, Suc w)),
      gemini_SendMessageStream = (\<lambda>c call w. (([hello_parts], None), Suc w)),
      gemini_model = ''gemini-1.5-flash'',
      gemini_models = [''gemini-1.5-pro'', ''gemini-1.5-flash''],
      gemini_time_Now = (\<lambda>w. 1700000000)\<rparr>"

definition hi_Request :: "string \<Rightarrow> Request" where
  "hi_Request model =
     \<lparr>Request_Messages =
        [\<lparr>Message_Role = RoleUser, Message_Content = ''hi'', Message_Name = [],
          Message_ToolCalls = [], Message_ToolCallID = []\<rparr>],
      Request_Model = model, Request_MaxTokens = None, Request_Stop = []\<rparr>"




text \<open>A router with the Gemini adapter registered under its own name.\<close>

definition gemini_Router :: "nat Router" where
  "gemini_Router =
     \<lparr>Router_providers = [(''gemini'', gemini_as_Provider echo_gemini)],
      Router_modelMap = Map.empty, Router_fallbacks = [], Router_middleware = []\<rparr>"

text \<open>
  Three runtimes over the world of these examples. In the first the context is never
  done. In the second it is cancelled while the retry wrapper sleeps. In the third the
  deadline has passed once the world has reached a given count, and every select advances
  the count by one.
\<close>

definition steady_runtime :: "nat runtime" where
  "steady_runtime =
     \<lparr>select_Done = (\<lambda>c w. (None, w)), sleep_or_Done = (\<lambda>c d w. (None, w)),
      float_overflow = - (2 ^ 63)\<rparr>"

definition cancelling_runtime :: "nat runtime" where
  "cancelling_runtime =
     \<lparr>select_Done = (\<lambda>c w. (None, w)),
      sleep_or_Done = (\<lambda>c d w. (Some context_Canceled, w)),
      float_overflow = - (2 ^ 63)\<rparr>"

definition deadline_runtime :: "nat \<Rightarrow> nat runtime" where
  "deadline_runtime k =
     \<lparr>select_Done = (\<lambda>c w. (if k \<le> w then Some context_DeadlineExceeded else None, Suc w)),
      sleep_or_Done = (\<lambda>c d w. (None, w)),
      float_overflow = - (2 ^ 63)\<rparr>"


text \<open>A retry wrapper of three attempts, one second apart at first, around a provider that always answers 429.\<close>

definition retry_three :: "nat retryProvider" where
  "retry_three =
     RetryMiddleware_retryProvider (NewRetryMiddleware 3 1000000000)
       (failing_Provider ''a'' [''m1''])"

definition retry_none :: "nat retryProvider" where
  "retry_none =
     RetryMiddleware_retryProvider (NewRetryMiddleware 0 1000000000)
       (failing_Provider ''a'' [''m1''])"

text \<open>A provider that always answers 401, and a retry wrapper of three attempts around it.\<close>

definition denied_error :: error where
  "denied_error = APIError ''a'' 401 ''denied'' [] (Some (Sentinel ErrAuthFailed))"

definition denied_Provider :: "nat Provider" where
  "denied_Provider =
     \<lparr>Name = ''a'', Models = [''m1''], SupportsTools = True,
      Complete = (\<lambda>c req w. (Inl denied_error, Suc w)),
      Stream = (\<lambda>c req w. (Inl denied_error, Suc w))\<rparr>"

definition retry_denied :: "nat retryProvider" where
  "retry_denied =
     RetryMiddleware_retryProvider (NewRetryMiddleware 3 1000000000) denied_Provider"


section \<open>Model resolution\<close>

lemma declares_iff: "declares ms model = (model \<in> set ms)"
  by (induction ms) auto

lemma scan_providers_Some:
  "scan_providers ps model = Some p \<Longrightarrow> (\<exists>n. (n, p) \<in> set ps) \<and> model \<in> set (Models p)"
  by (induction ps model rule: scan_providers.induct) (auto simp: declares_iff split: if_splits)

lemma scan_providers_None:
  "scan_providers ps model = None \<Longrightarrow> (n, p) \<in> set ps \<Longrightarrow> model \<notin> set (Models p)"
  by (induction ps model rule: scan_providers.induct) (auto simp: declares_iff split: if_splits)

lemma registered_iff:
  "distinct (map fst (Router_providers r)) \<Longrightarrow>
   registered r p = (\<exists>n. (n, p) \<in> set (Router_providers r))"
  unfolding registered_def
  by force

text \<open>
  C1: \<open>resolveProvider\<close> follows the algorithm of the specification. For a registry with
  distinct keys, whatever the order in which it is visited: an empty registry gives
  \<open>ErrNoProviders\<close>; otherwise a model mapped to a registered name gives that provider;
  otherwise a model that is itself a registered name gives that provider; otherwise,
  when some registered provider declares the model, the result is a registered provider
  that declares it; otherwise the result is \<open>ErrUnknownModel\<close> wrapped together with the
  model, which \<open>errors.Is\<close> recognises and whose text ends with the model.
\<close>

theorem resolveProvider_follows_algorithm:
  assumes "distinct (map fst (Router_providers r))"
  shows "(Router_providers r = [] \<longrightarrow> resolveProvider r M = Inl (Sentinel ErrNoProviders))
   \<and> (Router_providers r \<noteq> [] \<and> Router_modelMap r M = Some n
        \<and> map_of (Router_providers r) n = Some p \<longrightarrow> resolveProvider r M = Inr p)
   \<and> (Router_providers r \<noteq> [] \<and> \<not> mapped_to_registered r M
        \<and> map_of (Router_providers r) M = Some p \<longrightarrow> resolveProvider r M = Inr p)
   \<and> (Router_providers r \<noteq> [] \<and> \<not> mapped_to_registered r M
        \<and> map_of (Router_providers r) M = None
        \<and> (\<exists>q. registered r q \<and> M \<in> set (Models q))
        \<longrightarrow> (\<exists>q. resolveProvider r M = Inr q \<and> registered r q \<and> M \<in> set (Models q)))
   \<and> (Router_providers r \<noteq> [] \<and> \<not> mapped_to_registered r M
        \<and> map_of (Router_providers r) M = None
        \<and> \<not> (\<exists>q. registered r q \<and> M \<in> set (Models q))
        \<longrightarrow> resolveProvider r M = Inl (Errorf (Sentinel ErrUnknownModel) M)
            \<and> errors_Is (Errorf (Sentinel ErrUnknownModel) M) ErrUnknownModel
            \<and> Error_text (Errorf (Sentinel ErrUnknownModel) M) = ''unknown model: '' @ M)"
proof (intro conjI impI)
  assume "Router_providers r = []"
  then show "resolveProvider r M = Inl (Sentinel ErrNoProviders)"
    by (simp add: resolveProvider_def)
next
  assume "Router_providers r \<noteq> [] \<and> Router_modelMap r M = Some n
        \<and> map_of (Router_providers r) n = Some p"
  then show "resolveProvider r M = Inr p"
    by (simp add: resolveProvider_def)
next
  assume "Router_providers r \<noteq> [] \<and> \<not> mapped_to_registered r M
        \<and> map_of (Router_providers r) M = Some p"
  then show "resolveProvider r M = Inr p"
    by (auto simp: resolveProvider_def mapped_to_registered_def split: option.splits)
next
  assume a: "Router_providers r \<noteq> [] \<and> \<not> mapped_to_registered r M
        \<and> map_of (Router_providers r) M = None
        \<and> (\<exists>q. registered r q \<and> M \<in> set (Models q))"
  then obtain q0 n0 where q0: "(n0, q0) \<in> set (Router_providers r)" "M \<in> set (Models q0)"
    using registered_iff [OF assms] by blast
  then have "scan_providers (Router_providers r) M \<noteq> None"
    using scan_providers_None by fastforce
  then obtain q where q: "scan_providers (Router_providers r) M = Some q" by blast
  have "registered r q \<and> M \<in> set (Models q)"
    using scan_providers_Some [OF q] registered_iff [OF assms] by blast
  moreover have "resolveProvider r M = Inr q"
    using a q by (auto simp: resolveProvider_def mapped_to_registered_def split: option.splits)
  ultimately show "\<exists>q. resolveProvider r M = Inr q \<and> registered r q \<and> M \<in> set (Models q)"
    by blast
next
  assume a: "Router_providers r \<noteq> [] \<and> \<not> mapped_to_registered r M
        \<and> map_of (Router_providers r) M = None
        \<and> \<not> (\<exists>q. registered r q \<and> M \<in> set (Models q))"
  have "scan_providers (Router_providers r) M = None"
  proof (cases "scan_providers (Router_providers r) M")
    case (Some q)
    then show ?thesis
      using a scan_providers_Some [OF Some] registered_iff [OF assms] by blast
  qed simp
  then show "resolveProvider r M = Inl (Errorf (Sentinel ErrUnknownModel) M)"
    using a by (auto simp: resolveProvider_def mapped_to_registered_def split: option.splits)
qed simp_all

theorem resolveProvider_follows_algorithm_witness:
  "resolveProvider empty_Router ''m1'' = Inl (Sentinel ErrNoProviders)
   \<and> resolveProvider two_Router ''fast'' = Inr (failing_Provider ''b'' [''m2'', ''m3''])
   \<and> resolveProvider two_Router ''a'' = Inr (failing_Provider ''a'' [''m1''])
   \<and> (\<exists>q. resolveProvider two_Router ''m3'' = Inr q \<and> registered two_Router q
          \<and> ''m3'' \<in> set (Models q))
   \<and> resolveProvider two_Router ''m9'' = Inl (Errorf (Sentinel ErrUnknownModel) ''m9'')"
proof -
  have d0: "distinct (map fst (Router_providers empty_Router))"
    by (simp add: empty_Router_def)
  have d2: "distinct (map fst (Router_providers two_Router))"
    by (simp add: two_Router_def)
  have reg_b: "registered two_Router (failing_Provider ''b'' [''m2'', ''m3''])"
    by (simp add: registered_def two_Router_def)
  have no9: "\<not> (\<exists>q. registered two_Router q \<and> ''m9'' \<in> set (Models q))"
    by (auto simp: registered_def two_Router_def failing_Provider_def)
  have c1: "resolveProvider empty_Router ''m1'' = Inl (Sentinel ErrNoProviders)"
    using resolveProvider_follows_algorithm [OF d0, of "''m1''"]
    by (simp add: empty_Router_def)
  have c2: "resolveProvider two_Router ''fast'' = Inr (failing_Provider ''b'' [''m2'', ''m3''])"
    using resolveProvider_follows_algorithm
      [OF d2, of "''fast''" "''b''" "failing_Provider ''b'' [''m2'', ''m3'']"]
    by (simp add: two_Router_def)
  have c3: "resolveProvider two_Router ''a'' = Inr (failing_Provider ''a'' [''m1''])"
    using resolveProvider_follows_algorithm
      [OF d2, of "''a''" _ "failing_Provider ''a'' [''m1'']"]
    by (simp add: two_Router_def mapped_to_registered_def)
  have c4: "\<exists>q. resolveProvider two_Router ''m3'' = Inr q \<and> registered two_Router q
          \<and> ''m3'' \<in> set (Models q)"
  proof -
    have "\<exists>q. registered two_Router q \<and> ''m3'' \<in> set (Models q)"
      using reg_b by (auto simp: failing_Provider_def)
    then show ?thesis
      using resolveProvider_follows_algorithm [OF d2, of "''m3''"]
      by (simp add: two_Router_def mapped_to_registered_def)
  qed
  have c5: "resolveProvider two_Router ''m9'' = Inl (Errorf (Sentinel ErrUnknownModel) ''m9'')"
    using resolveProvider_follows_algorithm [OF d2, of "''m9''"] no9
    by (simp add: two_Router_def mapped_to_registered_def)
  show ?thesis using c1 c2 c3 c4 c5 by blast
qed

section \<open>The loop of the retry wrapper\<close>

lemma invocations_simps:
  "invocations [] = 0"
  "invocations (Invoke # steps) = Suc (invocations steps)"
  "invocations (Backoff d # steps) = invocations steps"
  "invocations (xs @ ys) = invocations xs + invocations ys"
  by (simp_all add: invocations_def)

lemma retry_wait_cases:
  "retry_wait rt p c attempt w = (dn, w1, slept) \<Longrightarrow>
   (attempt \<le> 0 \<and> dn = None \<and> w1 = w \<and> slept = [])
   \<or> (0 < attempt \<and> slept = [Backoff (calculateBackoff (float_overflow rt) p attempt)]
       \<and> sleep_or_Done rt c (calculateBackoff (float_overflow rt) p attempt) w = (dn, w1))"
  by (auto simp: retry_wait_def split: if_splits prod.splits)

lemma retry_loop_exhausted:
  "\<not> attempt < maxAttempts p \<Longrightarrow>
   retry_loop rt p c call attempt lastErr w
     = (Inl (Errorf (Sentinel ErrMaxRetriesExceed) (fmt_v lastErr)), w, [])"
  by (simp add: retry_loop.simps)

lemma retry_loop_done:
  "attempt < maxAttempts p \<Longrightarrow> retry_wait rt p c attempt w = (Some cerr, w1, slept) \<Longrightarrow>
   retry_loop rt p c call attempt lastErr w = (Inl cerr, w1, slept)"
  by (simp add: retry_loop.simps [of rt p c call attempt])

lemma retry_loop_success:
  "attempt < maxAttempts p \<Longrightarrow> retry_wait rt p c attempt w = (None, w1, slept) \<Longrightarrow>
   call w1 = (Inr resp, w2) \<Longrightarrow>
   retry_loop rt p c call attempt lastErr w = (Inr resp, w2, slept @ [Invoke])"
  by (simp add: retry_loop.simps [of rt p c call attempt])

lemma retry_loop_fatal:
  "attempt < maxAttempts p \<Longrightarrow> retry_wait rt p c attempt w = (None, w1, slept) \<Longrightarrow>
   call w1 = (Inl err, w2) \<Longrightarrow> \<not> retryable p (Some err) \<Longrightarrow>
   retry_loop rt p c call attempt lastErr w = (Inl err, w2, slept @ [Invoke])"
  by (simp add: retry_loop.simps [of rt p c call attempt])

lemma retry_loop_again:
  "attempt < maxAttempts p \<Longrightarrow> retry_wait rt p c attempt w = (None, w1, slept) \<Longrightarrow>
   call w1 = (Inl err, w2) \<Longrightarrow> retryable p (Some err) \<Longrightarrow>
   retry_loop rt p c call (attempt + 1) (Some err) w2 = (res, w3, steps) \<Longrightarrow>
   retry_loop rt p c call attempt lastErr w = (res, w3, slept @ Invoke # steps)"
  by (simp add: retry_loop.simps [of rt p c call attempt])

text \<open>An induction rule for the loop that names the five ways a turn can go.\<close>

lemma retry_loop_induct [consumes 1, case_names exhausted cancelled success fatal again]:
  assumes run: "retry_loop rt p c call attempt lastErr w = out"
    and exhausted: "\<And>attempt lastErr w.
      \<not> attempt < maxAttempts p \<Longrightarrow>
      Q attempt lastErr w (Inl (Errorf (Sentinel ErrMaxRetriesExceed) (fmt_v lastErr)), w, [])"
    and cancelled: "\<And>attempt lastErr w cerr w1 slept.
      attempt < maxAttempts p \<Longrightarrow> retry_wait rt p c attempt w = (Some cerr, w1, slept) \<Longrightarrow>
      Q attempt lastErr w (Inl cerr, w1, slept)"
    and success: "\<And>attempt lastErr w w1 slept resp w2.
      attempt < maxAttempts p \<Longrightarrow> retry_wait rt p c attempt w = (None, w1, slept) \<Longrightarrow>
      call w1 = (Inr resp, w2) \<Longrightarrow>
      Q attempt lastErr w (Inr resp, w2, slept @ [Invoke])"
    and fatal: "\<And>attempt lastErr w w1 slept err w2.
      attempt < maxAttempts p \<Longrightarrow> retry_wait rt p c attempt w = (None, w1, slept) \<Longrightarrow>
      call w1 = (Inl err, w2) \<Longrightarrow> \<not> retryable p (Some err) \<Longrightarrow>
      Q attempt lastErr w (Inl err, w2, slept @ [Invoke])"
    and again: "\<And>attempt lastErr w w1 slept err w2 res w3 steps.
      attempt < maxAttempts p \<Longrightarrow> retry_wait rt p c attempt w = (None, w1, slept) \<Longrightarrow>
      call w1 = (Inl err, w2) \<Longrightarrow> retryable p (Some err) \<Longrightarrow>
      retry_loop rt p c call (attempt + 1) (Some err) w2 = (res, w3, steps) \<Longrightarrow>
      Q (attempt + 1) (Some err) w2 (res, w3, steps) \<Longrightarrow>
      Q attempt lastErr w (res, w3, slept @ Invoke # steps)"
  shows "Q attempt lastErr w out"
  using run
proof (induction "nat (maxAttempts p - attempt)" arbitrary: attempt lastErr w out)
  case 0
  then have ex: "\<not> attempt < maxAttempts p" by simp
  show ?case
    using exhausted [OF ex] retry_loop_exhausted [OF ex, of rt c call lastErr w] "0.prems"
    by simp
next
  case (Suc n)
  then have lt: "attempt < maxAttempts p" by simp
  obtain dn w1 slept where rw: "retry_wait rt p c attempt w = (dn, w1, slept)"
    by (cases "retry_wait rt p c attempt w")
  show ?case
  proof (cases dn)
    case (Some cerr)
    then show ?thesis
      using cancelled [OF lt] retry_loop_done [OF lt, of rt c w cerr w1 slept call lastErr]
        rw Suc.prems
      by simp
  next
    case None
    obtain r w2 where cl: "call w1 = (r, w2)" by (cases "call w1")
    show ?thesis
    proof (cases r)
      case (Inr resp)
      then show ?thesis
        using success [OF lt] retry_loop_success [OF lt, of rt c w w1 slept call resp w2 lastErr]
          rw None cl Suc.prems
        by simp
    next
      case (Inl err)
      show ?thesis
      proof (cases "retryable p (Some err)")
        case False
        then show ?thesis
          using fatal [OF lt] retry_loop_fatal [OF lt, of rt c w w1 slept call err w2 lastErr]
            rw None cl Inl Suc.prems
          by simp
      next
        case True
        obtain res w3 steps where
          rec: "retry_loop rt p c call (attempt + 1) (Some err) w2 = (res, w3, steps)"
          by (cases "retry_loop rt p c call (attempt + 1) (Some err) w2")
        have n: "n = nat (maxAttempts p - (attempt + 1))"
          using Suc.hyps(2) by simp
        have ih: "Q (attempt + 1) (Some err) w2 (res, w3, steps)"
          by (rule Suc.hyps(1) [OF n rec])
        have rw': "retry_wait rt p c attempt w = (None, w1, slept)"
          using rw None by simp
        have cl': "call w1 = (Inl err, w2)"
          using cl Inl by simp
        show ?thesis
          using again [OF lt rw' cl' True rec ih]
            retry_loop_again [OF lt rw' cl' True rec, of lastErr] Suc.prems
          by simp
      qed
    qed
  qed
qed

lemma retry_loop_invocations:
  assumes "retry_loop rt p c call attempt lastErr w = out"
  shows "int (invocations (snd (snd out))) \<le> max 0 (maxAttempts p - attempt)"
  using assms
proof (induction rule: retry_loop_induct)
  case (again attempt lastErr w w1 slept err w2 res w3 steps)
  then show ?case
    using retry_wait_cases [OF again(2)] by (auto simp: invocations_simps)
qed (auto simp: invocations_simps dest!: retry_wait_cases)


lemma retry_loop_all_fail:
  assumes "retry_loop rt p c call attempt lastErr w = out"
    and nd: "never_done rt c"
    and fr: "fails_retryably p call"
  shows "int (invocations (snd (snd out))) = max 0 (maxAttempts p - attempt)
    \<and> (\<exists>le. fst out = Inl (Errorf (Sentinel ErrMaxRetriesExceed) (fmt_v le))
          \<and> (attempt < maxAttempts p \<longrightarrow> (\<exists>e w0. le = Some e \<and> call w0 = (Inl e, fst (snd out))))
          \<and> (\<not> attempt < maxAttempts p \<longrightarrow> le = lastErr \<and> fst (snd out) = w))"
  using assms(1)
proof (induction rule: retry_loop_induct)
  case (exhausted attempt lastErr w)
  then show ?case by (simp add: invocations_simps)
next
  case (cancelled attempt lastErr w cerr w1 slept)
  then show ?case
    using nd retry_wait_cases [OF cancelled(2)] unfolding never_done_def
    by (metis fst_conv option.distinct(1))
next
  case (success attempt lastErr w w1 slept resp w2)
  then show ?case
    using fr by (auto simp: fails_retryably_def dest!: spec [of _ w1])
next
  case (fatal attempt lastErr w w1 slept err w2)
  then show ?case
    using fr by (auto simp: fails_retryably_def dest!: spec [of _ w1])
next
  case (again attempt lastErr w w1 slept err w2 res w3 steps)
  have s0: "invocations slept = 0"
    using retry_wait_cases [OF again(2)] by (auto simp: invocations_simps)
  show ?case
  proof (cases "attempt + 1 < maxAttempts p")
    case True
    then show ?thesis using again s0 by (auto simp: invocations_simps)
  next
    case False
    then have "fst (snd (res, w3, steps)) = w2" using again.IH by simp
    then have "call w1 = (Inl err, w3)" using again(3) by simp
    then show ?thesis using again False s0 by (auto simp: invocations_simps)
  qed
qed

lemma waits_before_turn:
  "retry_wait rt p c attempt w = (dn, w1, slept) \<Longrightarrow>
   waits_before (slept @ Invoke # steps) []
     = (if attempt > 0 then [calculateBackoff (float_overflow rt) p attempt] else [])
       # waits_before steps []"
  by (auto dest!: retry_wait_cases)

lemma waits_before_no_turn:
  "retry_wait rt p c attempt w = (dn, w1, slept) \<Longrightarrow> waits_before slept [] = []"
  by (auto dest!: retry_wait_cases)

lemma retry_loop_waits:
  assumes "retry_loop rt p c call attempt lastErr w = out"
  shows "length (waits_before (snd (snd out)) []) = invocations (snd (snd out))
    \<and> (\<forall>j < invocations (snd (snd out)).
          attempt + int j < maxAttempts p
          \<and> waits_before (snd (snd out)) [] ! j
              = (if attempt + int j > 0
                 then [calculateBackoff (float_overflow rt) p (attempt + int j)] else []))"
  using assms
proof (induction rule: retry_loop_induct)
  case (exhausted attempt lastErr w)
  then show ?case by (simp add: invocations_simps)
next
  case (cancelled attempt lastErr w cerr w1 slept)
  then show ?case
    using retry_wait_cases [OF cancelled(2)] by (auto simp: invocations_simps)
next
  case (success attempt lastErr w w1 slept resp w2)
  then show ?case
    using waits_before_turn [OF success(2), of "[]"] retry_wait_cases [OF success(2)]
    by (auto simp: invocations_simps)
next
  case (fatal attempt lastErr w w1 slept err w2)
  then show ?case
    using waits_before_turn [OF fatal(2), of "[]"] retry_wait_cases [OF fatal(2)]
    by (auto simp: invocations_simps)
next
  case (again attempt lastErr w w1 slept err w2 res w3 steps)
  have s0: "invocations slept = 0"
    using retry_wait_cases [OF again(2)] by (auto simp: invocations_simps)
  have wb: "waits_before (slept @ Invoke # steps) []
     = (if attempt > 0 then [calculateBackoff (float_overflow rt) p attempt] else [])
       # waits_before steps []"
    by (rule waits_before_turn [OF again(2)])
  have inv: "invocations (slept @ Invoke # steps) = Suc (invocations steps)"
    using s0 by (simp add: invocations_simps)
  have len: "length (waits_before steps []) = invocations steps"
    using again.IH by simp
  have nth: "\<And>j. j < invocations steps \<Longrightarrow>
      attempt + 1 + int j < maxAttempts p
      \<and> waits_before steps [] ! j
          = (if attempt + 1 + int j > 0
             then [calculateBackoff (float_overflow rt) p (attempt + 1 + int j)] else [])"
    using again.IH by simp
  show ?case
  proof (intro conjI allI impI)
    show "length (waits_before (snd (snd (res, w3, slept @ Invoke # steps))) [])
        = invocations (snd (snd (res, w3, slept @ Invoke # steps)))"
      using wb inv len by simp
  next
    fix j assume "j < invocations (snd (snd (res, w3, slept @ Invoke # steps)))"
    then have j: "j < Suc (invocations steps)" using inv by simp
    show "attempt + int j < maxAttempts p"
    proof (cases j)
      case 0 then show ?thesis using again(1) by simp
    next
      case (Suc j') then show ?thesis using nth [of j'] j by simp
    qed
  next
    fix j assume "j < invocations (snd (snd (res, w3, slept @ Invoke # steps)))"
    then have j: "j < Suc (invocations steps)" using inv by simp
    show "waits_before (snd (snd (res, w3, slept @ Invoke # steps))) [] ! j
        = (if attempt + int j > 0
           then [calculateBackoff (float_overflow rt) p (attempt + int j)] else [])"
    proof (cases j)
      case 0 then show ?thesis using wb by simp
    next
      case (Suc j')
      have e: "attempt + 1 + int j' = attempt + int j" using Suc by simp
      have "j' < invocations steps" using j Suc by simp
      then have "waits_before steps [] ! j'
          = (if attempt + int j > 0
             then [calculateBackoff (float_overflow rt) p (attempt + int j)] else [])"
        using nth [of j', unfolded e] by simp
      then show ?thesis using wb Suc by simp
    qed
  qed
qed

lemma calculateBackoff_exact:
  assumes "exact_delays p" and "1 \<le> m" and "m < maxAttempts p"
  shows "calculateBackoff ovf p m = min (baseDelay p * 2 ^ nat (m - 1)) (maxDelay p)"
proof -
  have f: "float64_of_int64 (baseDelay p) = baseDelay p"
    using assms(1) by (simp add: exact_delays_def float64_of_int64_def)
  have n: "0 \<le> m - 1" "\<not> 1024 \<le> m - 1"
    using assms by (auto simp: exact_delays_def)
  have "int (nat (m - 1)) + 1 < maxAttempts p"
    using assms by simp
  then have r: "- (2 ^ 63) \<le> baseDelay p * 2 ^ nat (m - 1) \<and> baseDelay p * 2 ^ nat (m - 1) < 2 ^ 63"
    using assms(1) unfolding exact_delays_def by blast
  show ?thesis
    using f n r by (simp add: calculateBackoff_def Let_def min_def)
qed

section \<open>Streamed content\<close>

lemma delta_text_append: "delta_text (xs @ ys) = delta_text xs @ delta_text ys"
  by (simp add: delta_text_def)

lemma delta_text_simps:
  "delta_text [] = []"
  "delta_text (ContentDelta_event txt # es) = txt @ delta_text es"
  "delta_text (ToolCallDelta_event tcs # es) = delta_text es"
  "delta_text (Done_event r # es) = delta_text es"
  "delta_text (Error_event err # es) = delta_text es"
  by (simp_all add: delta_text_def ContentDelta_event_def ToolCallDelta_event_def
      Done_event_def Error_event_def Event_zero_def)

lemma anthropic_on_event_content:
  "anthropic_on_event a e = (a', sent) \<Longrightarrow>
   acc_fullContent a' = acc_fullContent a @ delta_text sent"
  by (induction a e rule: anthropic_on_event.induct)
     (auto simp: delta_text_simps Let_def split: if_splits)

lemma anthropic_loop_content:
  "anthropic_loop a evs = (a', sent) \<Longrightarrow>
   acc_fullContent a' = acc_fullContent a @ delta_text sent"
proof (induction evs arbitrary: a a' sent)
  case Nil
  then show ?case by (simp add: delta_text_simps)
next
  case (Cons e evs)
  obtain a1 s1 where s1: "anthropic_on_event a e = (a1, s1)" by (cases "anthropic_on_event a e")
  obtain a2 s2 where s2: "anthropic_loop a1 evs = (a2, s2)" by (cases "anthropic_loop a1 evs")
  from Cons.prems s1 s2 have eq: "a' = a2" "sent = s1 @ s2" by simp_all
  show ?case
    using anthropic_on_event_content [OF s1] Cons.IH [OF s2] eq
    by (simp add: delta_text_append)
qed

lemma terminal_Done_content_snoc:
  "terminal_Done_content (es @ [Done_event r]) = Response_content r"
  by (simp add: terminal_Done_content_def Done_event_def Event_zero_def)

lemma anthropic_goroutine_content:
  "terminal_Done_content (anthropic_goroutine model provider now (evs, None))
     = Some (delta_text (anthropic_goroutine model provider now (evs, None)))"
proof -
  obtain a sent where l: "anthropic_loop anthropic_acc_zero evs = (a, sent)"
    by (cases "anthropic_loop anthropic_acc_zero evs")
  have "acc_fullContent a = delta_text sent"
    using anthropic_loop_content [OF l] by (simp add: anthropic_acc_zero_def)
  then show ?thesis
    using l
    by (simp add: anthropic_goroutine_def terminal_Done_content_snoc delta_text_append
        delta_text_simps Response_content_def anthropic_final_Response_def)
qed

lemma gemini_on_parts_content:
  "gemini_on_parts acc ps = (acc', sent) \<Longrightarrow> fst acc' = fst acc @ delta_text sent"
proof (induction acc ps arbitrary: acc' sent rule: gemini_on_parts.induct)
  case (1 acc)
  then show ?case by (simp add: delta_text_simps)
next
  case (2 fullc tcs t ps)
  obtain a1 s1 where r: "gemini_on_parts (fullc @ t, tcs) ps = (a1, s1)"
    by (cases "gemini_on_parts (fullc @ t, tcs) ps")
  with "2.prems" have "acc' = a1" "sent = ContentDelta_event t # s1" by simp_all
  then show ?case using "2.IH" [OF r] by (simp add: delta_text_simps)
next
  case (3 fullc tcs name args ps)
  obtain a1 s1 where r: "gemini_on_parts (fullc, tcs @ [gemini_ToolCall name args]) ps = (a1, s1)"
    by (cases "gemini_on_parts (fullc, tcs @ [gemini_ToolCall name args]) ps")
  with "3.prems" have "acc' = a1" "sent = ToolCallDelta_event [gemini_ToolCall name args] # s1"
    by (simp_all add: Let_def)
  then show ?case using "3.IH" [OF refl r] by (simp add: delta_text_simps)
next
  case (4 acc ps)
  then show ?case by simp
qed

lemma gemini_on_candidates_content:
  "gemini_on_candidates acc cs = (acc', sent) \<Longrightarrow> fst acc' = fst acc @ delta_text sent"
proof (induction cs arbitrary: acc acc' sent)
  case Nil
  then show ?case by (simp add: delta_text_simps)
next
  case (Cons cand cs)
  show ?case
  proof (cases "Candidate_Content cand")
    case None
    then show ?thesis using Cons by simp
  next
    case (Some parts)
    obtain a1 s1 where r1: "gemini_on_parts acc parts = (a1, s1)"
      by (cases "gemini_on_parts acc parts")
    obtain a2 s2 where r2: "gemini_on_candidates a1 cs = (a2, s2)"
      by (cases "gemini_on_candidates a1 cs")
    from Cons.prems Some r1 r2 have "acc' = a2" "sent = s1 @ s2" by simp_all
    then show ?thesis
      using gemini_on_parts_content [OF r1] Cons.IH [OF r2] by (simp add: delta_text_append)
  qed
qed

lemma gemini_on_responses_content:
  "gemini_on_responses acc rs = (acc', sent) \<Longrightarrow> fst acc' = fst acc @ delta_text sent"
proof (induction rs arbitrary: acc acc' sent)
  case Nil
  then show ?case by (simp add: delta_text_simps)
next
  case (Cons resp rs)
  obtain a1 s1 where r1: "gemini_on_candidates acc (Candidates resp) = (a1, s1)"
    by (cases "gemini_on_candidates acc (Candidates resp)")
  obtain a2 s2 where r2: "gemini_on_responses a1 rs = (a2, s2)"
    by (cases "gemini_on_responses a1 rs")
  from Cons.prems r1 r2 have "acc' = a2" "sent = s1 @ s2" by simp_all
  then show ?case
    using gemini_on_candidates_content [OF r1] Cons.IH [OF r2] by (simp add: delta_text_append)
qed

lemma gemini_goroutine_content:
  "terminal_Done_content (gemini_goroutine modelName provider now (rs, None))
     = Some (delta_text (gemini_goroutine modelName provider now (rs, None)))"
proof -
  obtain acc sent where l: "gemini_on_responses ([], []) rs = (acc, sent)"
    by (cases "gemini_on_responses ([], []) rs")
  have "fst acc = delta_text sent"
    using gemini_on_responses_content [OF l] by simp
  then show ?thesis
    using l
    by (simp add: gemini_goroutine_def terminal_Done_content_snoc delta_text_append
        delta_text_simps Response_content_def gemini_final_Response_def)
qed

text \<open>
  C3: for every stream of the Anthropic and of the Gemini adapter whose backend events end
  without an error, the last event sent is \<open>Done\<close>, and the content of the assistant
  message it carries is the concatenation, in order, of the contents of the
  \<open>ContentDelta\<close> events sent.
\<close>

theorem adapter_streams_concatenate:
  "(anthropic_client_NewStreaming pa c (anthropic_params pa req) w = ((evs, None), w1)
      \<longrightarrow> (\<exists>es. anthropic_Stream pa c req w = (Inr es, w1)
                \<and> terminal_Done_content es = Some (delta_text es)))
   \<and> (gemini_SendMessageStream pg c (gemini_build_call pg req) w = ((rs, None), w2)
      \<longrightarrow> (\<exists>es. gemini_Stream pg c req w = (Inr es, w2)
                \<and> terminal_Done_content es = Some (delta_text es)))"
  by (simp add: anthropic_Stream_def gemini_Stream_def anthropic_goroutine_content
      gemini_goroutine_content)

theorem adapter_streams_concatenate_witness:
  "(\<exists>es. anthropic_Stream echo_anthropic Background (hi_Request ''claude-3-5-haiku-20241022'') 0
            = (Inr es, 1)
          \<and> terminal_Done_content es = Some (delta_text es))
   \<and> (\<exists>es. gemini_Stream echo_gemini Background (hi_Request ''gemini-1.5-pro'') 0 = (Inr es, 1)
          \<and> terminal_Done_content es = Some (delta_text es))"
  using
    adapter_streams_concatenate
      [of echo_anthropic Background "hi_Request ''claude-3-5-haiku-20241022''" 0 hello_events 1]
    adapter_streams_concatenate
      [of _ Background "hi_Request ''gemini-1.5-pro''" 0 _ _ echo_gemini "[hello_parts]" 1]
  by (simp add: echo_anthropic_def echo_gemini_def)

section \<open>The provider name of a response\<close>





lemma wrapped_Name:
  "shipped rt m \<Longrightarrow> Name (m next) = Name next"
  by (auto simp: shipped_def TimeoutMiddleware_Wrap_def RetryMiddleware_Wrap_def Let_def)






section \<open>Terminal events\<close>

lemma terminal_simps:
  "\<not> terminal (ContentDelta_event t)"
  "\<not> terminal (ToolCallDelta_event tcs)"
  "terminal (Done_event r)"
  "terminal (Error_event e)"
  by (simp_all add: terminal_def ContentDelta_event_def ToolCallDelta_event_def Done_event_def
      Error_event_def Event_zero_def)

lemma well_terminated_snoc:
  "\<forall>x \<in> set es. \<not> terminal x \<Longrightarrow> terminal t \<Longrightarrow> well_terminated (es @ [t])"
  by (simp add: well_terminated_def filter_empty_conv [THEN iffD2])

lemma anthropic_on_event_plain:
  "anthropic_on_event a e = (a', sent) \<Longrightarrow> \<forall>x \<in> set sent. \<not> terminal x"
  by (induction a e rule: anthropic_on_event.induct)
     (auto simp: terminal_simps Let_def split: if_splits)

lemma anthropic_loop_plain:
  "anthropic_loop a evs = (a', sent) \<Longrightarrow> \<forall>x \<in> set sent. \<not> terminal x"
proof (induction evs arbitrary: a a' sent)
  case Nil
  then show ?case by simp
next
  case (Cons e evs)
  obtain a1 s1 where s1: "anthropic_on_event a e = (a1, s1)" by (cases "anthropic_on_event a e")
  obtain a2 s2 where s2: "anthropic_loop a1 evs = (a2, s2)" by (cases "anthropic_loop a1 evs")
  from Cons.prems s1 s2 have "sent = s1 @ s2" by simp
  then show ?case
    using anthropic_on_event_plain [OF s1] Cons.IH [OF s2] by auto
qed

lemma gemini_on_parts_plain:
  "gemini_on_parts acc ps = (acc', sent) \<Longrightarrow> \<forall>x \<in> set sent. \<not> terminal x"
proof (induction acc ps arbitrary: acc' sent rule: gemini_on_parts.induct)
  case (1 acc)
  then show ?case by simp
next
  case (2 fullc tcs t ps)
  obtain a1 s1 where r: "gemini_on_parts (fullc @ t, tcs) ps = (a1, s1)"
    by (cases "gemini_on_parts (fullc @ t, tcs) ps")
  with "2.prems" have "sent = ContentDelta_event t # s1" by simp
  then show ?case using "2.IH" [OF r] by (simp add: terminal_simps)
next
  case (3 fullc tcs name args ps)
  obtain a1 s1 where r: "gemini_on_parts (fullc, tcs @ [gemini_ToolCall name args]) ps = (a1, s1)"
    by (cases "gemini_on_parts (fullc, tcs @ [gemini_ToolCall name args]) ps")
  with "3.prems" have "sent = ToolCallDelta_event [gemini_ToolCall name args] # s1"
    by (simp add: Let_def)
  then show ?case using "3.IH" [OF refl r] by (simp add: terminal_simps)
next
  case (4 acc ps)
  then show ?case by simp
qed

lemma gemini_on_candidates_plain:
  "gemini_on_candidates acc cs = (acc', sent) \<Longrightarrow> \<forall>x \<in> set sent. \<not> terminal x"
proof (induction cs arbitrary: acc acc' sent)
  case Nil
  then show ?case by simp
next
  case (Cons cand cs)
  show ?case
  proof (cases "Candidate_Content cand")
    case None
    then show ?thesis using Cons by simp
  next
    case (Some parts)
    obtain a1 s1 where r1: "gemini_on_parts acc parts = (a1, s1)"
      by (cases "gemini_on_parts acc parts")
    obtain a2 s2 where r2: "gemini_on_candidates a1 cs = (a2, s2)"
      by (cases "gemini_on_candidates a1 cs")
    from Cons.prems Some r1 r2 have "sent = s1 @ s2" by simp
    then show ?thesis
      using gemini_on_parts_plain [OF r1] Cons.IH [OF r2] by auto
  qed
qed

lemma gemini_on_responses_plain:
  "gemini_on_responses acc rs = (acc', sent) \<Longrightarrow> \<forall>x \<in> set sent. \<not> terminal x"
proof (induction rs arbitrary: acc acc' sent)
  case Nil
  then show ?case by simp
next
  case (Cons resp rs)
  obtain a1 s1 where r1: "gemini_on_candidates acc (Candidates resp) = (a1, s1)"
    by (cases "gemini_on_candidates acc (Candidates resp)")
  obtain a2 s2 where r2: "gemini_on_responses a1 rs = (a2, s2)"
    by (cases "gemini_on_responses a1 rs")
  from Cons.prems r1 r2 have "sent = s1 @ s2" by simp
  then show ?case
    using gemini_on_candidates_plain [OF r1] Cons.IH [OF r2] by auto
qed

lemma adapter_goroutines_well_terminated:
  "well_terminated (anthropic_goroutine model provider now backend)"
  "well_terminated (gemini_goroutine model provider now gbackend)"
proof -
  obtain a sent where l: "anthropic_loop anthropic_acc_zero (fst backend) = (a, sent)"
    by (cases "anthropic_loop anthropic_acc_zero (fst backend)")
  show "well_terminated (anthropic_goroutine model provider now backend)"
    using l anthropic_loop_plain [OF l]
    by (auto simp: anthropic_goroutine_def terminal_simps intro!: well_terminated_snoc
        split: option.splits)
next
  obtain acc sent where l: "gemini_on_responses ([], []) (fst gbackend) = (acc, sent)"
    by (cases "gemini_on_responses ([], []) (fst gbackend)")
  show "well_terminated (gemini_goroutine model provider now gbackend)"
    using l gemini_on_responses_plain [OF l]
    by (auto simp: gemini_goroutine_def terminal_simps intro!: well_terminated_snoc
        split: option.splits)
qed

lemma timeout_forward_steady:
  "\<forall>w. select_Done rt c w = (None, w) \<Longrightarrow> timeout_forward rt c ch w = (ch, w)"
  by (induction ch) simp_all

text \<open>
  C4 holds for the channels of the two adapters, and for the timeout wrapper as long as
  the context is never done (the lemmas above). It fails for a stream wrapped by the
  timeout middleware when the deadline passes at the end of the stream: the wrapper has
  forwarded the adapter's \<open>Done\<close> event, its next select takes the case \<open><-ctx.Done()\<close>
  before it sees the inner channel closed, and it sends an \<open>Error\<close> event after the
  \<open>Done\<close> event. Below, the adapter's own channel is well terminated; the wrapped one
  carries two terminal events.
\<close>

theorem timeout_Stream_second_terminal:
  "map_sum id well_terminated
     (fst (anthropic_Stream echo_anthropic (WithTimeout Background 60000000000) (hi_Request []) 0))
     = Inr True
   \<and> map_sum id (map Event_Type)
       (fst (timeout_Stream (deadline_runtime 7)
               \<lparr>timeout_Provider = anthropic_as_Provider echo_anthropic, timeout = 60000000000\<rparr>
               Background (hi_Request []) 0))
     = Inr [EventContentDelta, EventContentDelta, EventDone, EventError]
   \<and> map_sum id well_terminated
       (fst (timeout_Stream (deadline_runtime 7)
               \<lparr>timeout_Provider = anthropic_as_Provider echo_anthropic, timeout = 60000000000\<rparr>
               Background (hi_Request []) 0))
     = Inr False"
  by (simp add: timeout_Stream_def anthropic_as_Provider_def anthropic_Stream_def
      echo_anthropic_def hello_events_def anthropic_goroutine_def anthropic_acc_zero_def
      anthropic_params_def hi_Request_def deadline_runtime_def well_terminated_def terminal_def
      ContentDelta_event_def Done_event_def Error_event_def Event_zero_def Let_def)

section \<open>Finish reason and tool calls\<close>




section \<open>Attempts and sleeps of the retry wrapper\<close>

text \<open>
  C6, as stated, fails: when the context is cancelled while the wrapper sleeps, the
  select returns \<open>ctx.Err()\<close>. Around a provider that fails every time with a retryable
  429, a wrapper of three attempts whose context is cancelled during the first sleep
  makes one attempt and returns \<open>context.Canceled\<close>, which does not wrap
  \<open>ErrMaxRetriesExceeded\<close>.
\<close>

theorem retry_cancelled_counterexample:
  "fails_retryably retry_three (Complete (retry_Provider retry_three) Background (hi_Request ''m1''))
   \<and> maxAttempts retry_three = 3
   \<and> retry_Complete cancelling_runtime retry_three Background (hi_Request ''m1'') 0
       = (Inl context_Canceled, 1, [Invoke, Backoff 1000000000])
   \<and> invocations [Invoke, Backoff 1000000000] = 1
   \<and> errors_Is context_Canceled ErrMaxRetriesExceed = False"
  by (simp add: retry_Complete_def retry_loop.simps retry_wait_def retry_three_def
      RetryMiddleware_retryProvider_def NewRetryMiddleware_def failing_Provider_def
      cancelling_runtime_def IsRetryable_def calculateBackoff_def float64_of_int64_def Let_def
      fails_retryably_def invocations_simps context_Canceled_def)

text \<open>
  C6, amended. For a retry wrapper of \<open>N\<close> attempts and base delay \<open>d\<close>:
  \<^item> \<open>Complete\<close> calls the underlying provider at most \<open>N\<close> times;
  \<^item> if the context is never done during a sleep, every attempt fails with a retryable
    error and \<open>N\<close> is positive, it makes exactly \<open>N\<close> attempts and returns
    \<open>ErrMaxRetriesExceeded\<close> wrapped together with the text of the last error;
  \<^item> at any attempt, if the call fails with an error that is not retryable, that error
    is returned at once, with no further attempt;
  \<^item> at any attempt, if the context is done during the sleep, \<open>ctx.Err()\<close> is returned
    at once, with no further attempt;
  \<^item> the sleep before the \<open>k\<close>-th attempt (\<open>k \<ge> 2\<close>) is
    \<open>min (d * 2 ^ (k - 2)) maxDelay\<close>, provided the magnitude of \<open>d\<close> is below \<open>2 ^ 53\<close>
    nanoseconds, \<open>N\<close> is at most 1025 and the doubled delays up to the last sleep lie
    within \<open>int64\<close>, so that the \<open>float64\<close> arithmetic of \<open>calculateBackoff\<close> is exact.
\<close>

theorem retry_Complete_attempts:
  "int (invocations (snd (snd (retry_Complete rt p c req w)))) \<le> max 0 (maxAttempts p)
   \<and> (never_done rt c \<and> fails_retryably p (Complete (retry_Provider p) c req)
        \<and> 0 < maxAttempts p
      \<longrightarrow> int (invocations (snd (snd (retry_Complete rt p c req w)))) = maxAttempts p
          \<and> (\<exists>e w0. Complete (retry_Provider p) c req w0
                        = (Inl e, fst (snd (retry_Complete rt p c req w)))
                \<and> fst (retry_Complete rt p c req w)
                    = Inl (Errorf (Sentinel ErrMaxRetriesExceed) (Error_text e))
                \<and> errors_Is (Errorf (Sentinel ErrMaxRetriesExceed) (Error_text e))
                      ErrMaxRetriesExceed))
   \<and> (attempt < maxAttempts p \<and> retry_wait rt p c attempt w1 = (None, w2, slept)
        \<and> Complete (retry_Provider p) c req w2 = (Inl err, w3) \<and> \<not> retryable p (Some err)
      \<longrightarrow> retry_loop rt p c (Complete (retry_Provider p) c req) attempt lastErr w1
            = (Inl err, w3, slept @ [Invoke]))
   \<and> (attempt < maxAttempts p \<and> retry_wait rt p c attempt w1 = (Some cerr, w2, slept)
      \<longrightarrow> retry_loop rt p c (Complete (retry_Provider p) c req) attempt lastErr w1
            = (Inl cerr, w2, slept))
   \<and> (exact_delays p
      \<longrightarrow> (\<forall>k. 2 \<le> k \<and> k \<le> invocations (snd (snd (retry_Complete rt p c req w)))
            \<longrightarrow> waits_before (snd (snd (retry_Complete rt p c req w))) [] ! (k - 1)
                = [min (baseDelay p * 2 ^ (k - 2)) (maxDelay p)]))"
proof (intro conjI impI allI)
  show "int (invocations (snd (snd (retry_Complete rt p c req w)))) \<le> max 0 (maxAttempts p)"
    using retry_loop_invocations [OF retry_Complete_def [symmetric], of rt p c req w] by simp
next
  assume h: "never_done rt c \<and> fails_retryably p (Complete (retry_Provider p) c req)
        \<and> 0 < maxAttempts p"
  note af = retry_loop_all_fail [OF retry_Complete_def [symmetric], of rt c p req w]
  show "int (invocations (snd (snd (retry_Complete rt p c req w)))) = maxAttempts p"
    using af h by simp
  show "\<exists>e w0. Complete (retry_Provider p) c req w0
                        = (Inl e, fst (snd (retry_Complete rt p c req w)))
                \<and> fst (retry_Complete rt p c req w)
                    = Inl (Errorf (Sentinel ErrMaxRetriesExceed) (Error_text e))
                \<and> errors_Is (Errorf (Sentinel ErrMaxRetriesExceed) (Error_text e))
                      ErrMaxRetriesExceed"
    using af h by (auto simp: fmt_v_def)
next
  assume "attempt < maxAttempts p \<and> retry_wait rt p c attempt w1 = (None, w2, slept)
        \<and> Complete (retry_Provider p) c req w2 = (Inl err, w3) \<and> \<not> retryable p (Some err)"
  then show "retry_loop rt p c (Complete (retry_Provider p) c req) attempt lastErr w1
            = (Inl err, w3, slept @ [Invoke])"
    by (simp add: retry_loop_fatal)
next
  assume "attempt < maxAttempts p \<and> retry_wait rt p c attempt w1 = (Some cerr, w2, slept)"
  then show "retry_loop rt p c (Complete (retry_Provider p) c req) attempt lastErr w1
            = (Inl cerr, w2, slept)"
    by (simp add: retry_loop_done)
next
  fix k
  assume h: "exact_delays p"
    and k: "2 \<le> k \<and> k \<le> invocations (snd (snd (retry_Complete rt p c req w)))"
  note wt = retry_loop_waits [OF retry_Complete_def [symmetric], of rt p c req w]
  have kk: "k - 1 < invocations (snd (snd (retry_Complete rt p c req w)))"
    using k by arith
  have m: "0 + int (k - 1) < maxAttempts p"
    using wt kk by blast
  have "waits_before (snd (snd (retry_Complete rt p c req w))) [] ! (k - 1)
      = [calculateBackoff (float_overflow rt) p (int (k - 1))]"
    using wt kk k by force
  moreover have "calculateBackoff (float_overflow rt) p (int (k - 1))
      = min (baseDelay p * 2 ^ nat (int (k - 1) - 1)) (maxDelay p)"
    using calculateBackoff_exact [of p "int (k - 1)"] h m k by simp
  moreover have "nat (int (k - 1) - 1) = k - 2"
    using k by arith
  ultimately show "waits_before (snd (snd (retry_Complete rt p c req w))) [] ! (k - 1)
                = [min (baseDelay p * 2 ^ (k - 2)) (maxDelay p)]"
    by simp
qed

theorem retry_Complete_attempts_witness:
  "never_done steady_runtime Background
   \<and> fails_retryably retry_three
        (Complete (retry_Provider retry_three) Background (hi_Request ''m1''))
   \<and> exact_delays retry_three
   \<and> int (invocations (snd (snd
          (retry_Complete steady_runtime retry_three Background (hi_Request ''m1'') 0)))) = 3
   \<and> fst (retry_Complete steady_runtime retry_three Background (hi_Request ''m1'') 0)
       = Inl (Errorf (Sentinel ErrMaxRetriesExceed) ''a: slow down: rate limited'')
   \<and> waits_before (snd (snd
          (retry_Complete steady_runtime retry_three Background (hi_Request ''m1'') 0))) [] ! 1
       = [1000000000]
   \<and> waits_before (snd (snd
          (retry_Complete steady_runtime retry_three Background (hi_Request ''m1'') 0))) [] ! 2
       = [2000000000]
   \<and> retry_loop steady_runtime retry_denied Background
        (Complete (retry_Provider retry_denied) Background (hi_Request ''m1'')) 0 None 0
       = (Inl denied_error, 1, [Invoke])
   \<and> retry_loop cancelling_runtime retry_three Background
        (Complete (retry_Provider retry_three) Background (hi_Request ''m1'')) 1 None 1
       = (Inl context_Canceled, 1, [Backoff 1000000000])"
proof -
  let ?run = "retry_Complete steady_runtime retry_three Background (hi_Request ''m1'') 0"
  have nd: "never_done steady_runtime Background"
    by (simp add: never_done_def steady_runtime_def)
  have fr: "fails_retryably retry_three
        (Complete (retry_Provider retry_three) Background (hi_Request ''m1''))"
    by (simp add: fails_retryably_def retry_three_def RetryMiddleware_retryProvider_def
        NewRetryMiddleware_def failing_Provider_def IsRetryable_def)
  have three: "maxAttempts retry_three = 3" "baseDelay retry_three = 1000000000"
    "maxDelay retry_three = 30000000000"
    by (simp_all add: retry_three_def RetryMiddleware_retryProvider_def NewRetryMiddleware_def)
  have ed: "exact_delays retry_three"
  proof -
    have "(1000000000::int) * 2 ^ i < 2 ^ 63" if "int i + 1 < 3" for i :: nat
    proof -
      from that have "i = 0 \<or> i = 1" by arith
      then show ?thesis by auto
    qed
    moreover have "- (2 ^ 63) \<le> (1000000000::int) * 2 ^ i" for i :: nat
      by (rule order_trans [of _ 0]) simp_all
    ultimately show ?thesis
      by (simp add: exact_delays_def three)
  qed
  note t = retry_Complete_attempts
    [where rt = steady_runtime and p = retry_three and c = Background
       and req = "hi_Request ''m1''" and w = 0 and attempt = 1 and ?w1.0 = 1 and ?w2.0 = 1
       and slept = "[]" and err = denied_error and ?w3.0 = 1 and lastErr = None
       and cerr = context_Canceled]
  have n3: "int (invocations (snd (snd ?run))) = 3"
    using t nd fr three by simp
  have res: "fst ?run = Inl (Errorf (Sentinel ErrMaxRetriesExceed) ''a: slow down: rate limited'')"
  proof -
    from t nd fr three obtain e w0 where
      e: "Complete (retry_Provider retry_three) Background (hi_Request ''m1'') w0
            = (Inl e, fst (snd ?run))"
      and r: "fst ?run = Inl (Errorf (Sentinel ErrMaxRetriesExceed) (Error_text e))"
      by auto
    from e have "e = APIError ''a'' 429 ''slow down'' [] (Some (Sentinel ErrRateLimited))"
      by (simp add: retry_three_def RetryMiddleware_retryProvider_def failing_Provider_def)
    with r show ?thesis by simp
  qed
  have w: "\<forall>k. 2 \<le> k \<and> k \<le> invocations (snd (snd ?run))
      \<longrightarrow> waits_before (snd (snd ?run)) [] ! (k - 1)
          = [min (baseDelay retry_three * 2 ^ (k - 2)) (maxDelay retry_three)]"
    using t ed by blast
  have w1: "waits_before (snd (snd ?run)) [] ! 1 = [1000000000]"
    using w [rule_format, of 2] n3 three by simp
  have w2: "waits_before (snd (snd ?run)) [] ! 2 = [2000000000]"
    using w [rule_format, of 3] n3 three by simp
  have den: "retry_loop steady_runtime retry_denied Background
        (Complete (retry_Provider retry_denied) Background (hi_Request ''m1'')) 0 None 0
       = (Inl denied_error, 1, [Invoke])"
  proof -
    have a: "0 < maxAttempts retry_denied"
      by (simp add: retry_denied_def RetryMiddleware_retryProvider_def NewRetryMiddleware_def)
    have b: "retry_wait steady_runtime retry_denied Background 0 0 = (None, 0, [])"
      by (simp add: retry_wait_def)
    have c: "Complete (retry_Provider retry_denied) Background (hi_Request ''m1'') 0
        = (Inl denied_error, 1)"
      by (simp add: retry_denied_def RetryMiddleware_retryProvider_def denied_Provider_def)
    have d: "\<not> retryable retry_denied (Some denied_error)"
      by (simp add: retry_denied_def RetryMiddleware_retryProvider_def NewRetryMiddleware_def
          IsRetryable_def denied_error_def)
    show ?thesis
      using retry_Complete_attempts
        [where rt = steady_runtime and p = retry_denied and c = Background
           and req = "hi_Request ''m1''" and w = 0 and attempt = 0 and ?w1.0 = 0 and ?w2.0 = 0
           and slept = "[]" and err = denied_error and ?w3.0 = 1 and lastErr = None
           and cerr = context_Canceled] a b c d
      by simp
  qed
  have can: "retry_loop cancelling_runtime retry_three Background
        (Complete (retry_Provider retry_three) Background (hi_Request ''m1'')) 1 None 1
       = (Inl context_Canceled, 1, [Backoff 1000000000])"
  proof -
    have b: "retry_wait cancelling_runtime retry_three Background 1 1
        = (Some context_Canceled, 1, [Backoff 1000000000])"
      by (simp add: retry_wait_def cancelling_runtime_def calculateBackoff_def
          float64_of_int64_def three Let_def)
    show ?thesis
      using retry_Complete_attempts
        [where rt = cancelling_runtime and p = retry_three and c = Background
           and req = "hi_Request ''m1''" and w = 0 and attempt = 1 and ?w1.0 = 1 and ?w2.0 = 1
           and slept = "[Backoff 1000000000]" and err = denied_error and ?w3.0 = 1
           and lastErr = None and cerr = context_Canceled] b three
      by simp
  qed
  show ?thesis
    using nd fr ed n3 res w1 w2 den can by simp
qed

section \<open>The retry classifier\<close>

text \<open>
  C7, as stated, fails: an error that unwraps to none of the sentinels named by the claim
  and to no \<open>APIError\<close> with a retryable status is one of "every other non-nil error",
  yet \<open>IsRetryable\<close> returns false for it when the first \<open>APIError\<close> of its chain has
  status 403 (the third case of the switch).
\<close>

theorem IsRetryable_other_error_counterexample:
  "\<not> errors_Is forbidden_without_cause ErrContextCanceled
   \<and> \<not> errors_Is forbidden_without_cause ErrAuthFailed
   \<and> \<not> errors_Is forbidden_without_cause ErrInvalidRequest
   \<and> \<not> errors_Is forbidden_without_cause ErrRateLimited
   \<and> errors_As_APIError forbidden_without_cause = Some 403
   \<and> IsRetryable (Some forbidden_without_cause) = False"
  by (simp add: forbidden_without_cause_def IsRetryable_def)

text \<open>
  C7, amended: \<open>IsRetryable\<close> is false for nil and for every error that unwraps to
  \<open>ErrContextCanceled\<close>, \<open>ErrAuthFailed\<close> or \<open>ErrInvalidRequest\<close>. For every other error
  the first \<open>APIError\<close> of the chain decides: status 429, 500, 502, 503 or 504 gives true,
  status 400, 401 or 403 gives false. In every remaining case (no \<open>APIError\<close> in the
  chain, or one with another status), among them the errors that unwrap to
  \<open>ErrRateLimited\<close>, the result is true.
\<close>

theorem IsRetryable_classifies:
  "IsRetryable None = False
   \<and> (errors_Is e ErrContextCanceled \<or> errors_Is e ErrAuthFailed
        \<or> errors_Is e ErrInvalidRequest \<longrightarrow> IsRetryable (Some e) = False)
   \<and> (\<not> errors_Is e ErrContextCanceled \<and> \<not> errors_Is e ErrAuthFailed
        \<and> \<not> errors_Is e ErrInvalidRequest
        \<longrightarrow>
          (errors_As_APIError e = Some c \<and> c \<in> {429, 500, 502, 503, 504}
             \<longrightarrow> IsRetryable (Some e) = True)
          \<and> (errors_As_APIError e = Some c \<and> c \<in> {400, 401, 403}
             \<longrightarrow> IsRetryable (Some e) = False)
          \<and> (errors_As_APIError e = None
               \<or> (errors_As_APIError e = Some c
                   \<and> c \<notin> {429, 500, 502, 503, 504, 400, 401, 403})
             \<longrightarrow> IsRetryable (Some e) = True))"
  by (auto simp: IsRetryable_def)

theorem IsRetryable_classifies_witness:
  "IsRetryable (Some (APIError ''anthropic'' 401 ''denied'' [] (Some (Sentinel ErrAuthFailed))))
     = False
   \<and> IsRetryable (Some (APIError ''gemini'' 503 ''unavailable'' [] None)) = True
   \<and> IsRetryable (Some (APIError ''custom'' 400 ''bad'' [] (Some (Foreign ''bad'' None))))
     = False
   \<and> IsRetryable (Some (Errorf (Sentinel ErrRateLimited) ''slow down'')) = True
   \<and> IsRetryable (Some (APIError ''gemini'' 0 ''boom'' [] (Some (Foreign ''boom'' None))))
     = True"
  using
    IsRetryable_classifies
      [of "APIError ''anthropic'' 401 ''denied'' [] (Some (Sentinel ErrAuthFailed))" 401]
    IsRetryable_classifies [of "APIError ''gemini'' 503 ''unavailable'' [] None" 503]
    IsRetryable_classifies
      [of "APIError ''custom'' 400 ''bad'' [] (Some (Foreign ''bad'' None))" 400]
    IsRetryable_classifies [of "Errorf (Sentinel ErrRateLimited) ''slow down''" 0]
    IsRetryable_classifies
      [of "APIError ''gemini'' 0 ''boom'' [] (Some (Foreign ''boom'' None))" 0]
  by simp

section \<open>The default model\<close>

lemma anthropic_default_model:
  "Request_Model req = [] \<or> Request_Model req = anthropic_Name p \<Longrightarrow>
   Params_Model (anthropic_params p req) = anthropic_model p"
  by (auto simp: anthropic_params_def anthropic_Name_def)

lemma gemini_default_model:
  "Request_Model req = [] \<Longrightarrow> Call_Model (gemini_build_call p req) = gemini_model p"
  by (simp add: gemini_build_call_def)

text \<open>
  C8 holds for the Anthropic adapter and, for an empty model, for the Gemini adapter (the
  two lemmas above). The Gemini adapter does not replace a model equal to its own name:
  asked for the model \<open>gemini\<close>, which the router resolves to the adapter registered
  under that name, it calls the backend for a model named \<open>gemini\<close> and not for its
  default model.
\<close>

theorem gemini_keeps_its_name_as_model:
  "gemini_Name echo_gemini = ''gemini''
   \<and> gemini_model echo_gemini = ''gemini-1.5-flash''
   \<and> Call_Model (gemini_build_call echo_gemini (hi_Request ''gemini'')) = ''gemini''
   \<and> resolveProvider gemini_Router ''gemini'' = Inr (gemini_as_Provider echo_gemini)
   \<and> map_sum id Response_Model
        (fst (Router_Complete gemini_Router Background (hi_Request ''gemini'') 0))
       = Inr ''gemini''"
  by (simp add: gemini_Name_def echo_gemini_def gemini_build_call_def hi_Request_def
      gemini_Router_def resolveProvider_def Router_Complete_def buildChain_def
      gemini_as_Provider_def gemini_Complete_def gemini_convertResponse_def hello_parts_def
      Let_def)

section \<open>Usage\<close>





section \<open>A retry wrapper with no attempts\<close>

text \<open>
  C10: a retry wrapper whose \<open>maxAttempts\<close> is zero or negative returns, from \<open>Complete\<close>
  and from \<open>Stream\<close>, \<open>ErrMaxRetriesExceeded\<close> wrapped together with the text of a nil
  last error, and never calls the underlying provider: the trace is empty and the world
  is the one it was given.
\<close>

theorem retry_without_attempts:
  "maxAttempts p \<le> 0 \<longrightarrow>
     retry_Complete rt p c req w
       = (Inl (Errorf (Sentinel ErrMaxRetriesExceed) ''<nil>''), w, [])
     \<and> retry_Stream rt p c req w
       = (Inl (Errorf (Sentinel ErrMaxRetriesExceed) ''<nil>''), w, [])
     \<and> invocations (snd (snd (retry_Complete rt p c req w))) = 0
     \<and> invocations (snd (snd (retry_Stream rt p c req w))) = 0
     \<and> errors_Is (Errorf (Sentinel ErrMaxRetriesExceed) ''<nil>'') ErrMaxRetriesExceed"
  by (simp add: retry_Complete_def retry_Stream_def retry_loop_exhausted fmt_v_def
      invocations_simps)

theorem retry_without_attempts_witness:
  "maxAttempts retry_none = 0
   \<and> retry_Complete steady_runtime retry_none Background (hi_Request ''m1'') 0
       = (Inl (Errorf (Sentinel ErrMaxRetriesExceed) ''<nil>''), 0, [])
   \<and> retry_Stream steady_runtime retry_none Background (hi_Request ''m1'') 0
       = (Inl (Errorf (Sentinel ErrMaxRetriesExceed) ''<nil>''), 0, [])"
proof -
  have z: "maxAttempts retry_none = 0"
    by (simp add: retry_none_def RetryMiddleware_retryProvider_def NewRetryMiddleware_def)
  then have "maxAttempts retry_none \<le> 0" by simp
  then show ?thesis
    using z retry_without_attempts
      [of retry_none steady_runtime Background "hi_Request ''m1''" 0]
    by blast
qed


end
